theory Spec2Isabelle
  imports Complex_Main
begin

section \<open>JavaScript numbers\<close>

text \<open>
  The controller computes with JavaScript numbers: binary floating-point numbers with
  the two infinities (which arise here from a division by zero) and NaN (from \<open>0 / 0\<close>
  and from arithmetic on \<open>undefined\<close>). A finite number is modelled by the real it
  denotes. The sign of zero is outside this model: \<open>Fin 0\<close> stands for both zeros, which
  JavaScript compares equal and prints alike, and a zero divisor is read as \<open>+0\<close>.
\<close>

datatype jsnum = Fin real | PosInf | NegInf | NaN

fun js_neg :: "jsnum \<Rightarrow> jsnum" where
  "js_neg (Fin x) = Fin (- x)"
| "js_neg PosInf = NegInf"
| "js_neg NegInf = PosInf"
| "js_neg NaN = NaN"

fun js_add :: "jsnum \<Rightarrow> jsnum \<Rightarrow> jsnum" where
  "js_add NaN _ = NaN"
| "js_add _ NaN = NaN"
| "js_add (Fin x) (Fin y) = Fin (x + y)"
| "js_add PosInf NegInf = NaN"
| "js_add NegInf PosInf = NaN"
| "js_add PosInf _ = PosInf"
| "js_add NegInf _ = NegInf"
| "js_add (Fin x) PosInf = PosInf"
| "js_add (Fin x) NegInf = NegInf"

definition js_sub :: "jsnum \<Rightarrow> jsnum \<Rightarrow> jsnum" where
  "js_sub a b = js_add a (js_neg b)"

text \<open>The sign of a number that is not NaN: \<open>True\<close> for a negative one.\<close>

fun js_negative :: "jsnum \<Rightarrow> bool" where
  "js_negative (Fin x) = (x < 0)"
| "js_negative NegInf = True"
| "js_negative _ = False"

fun js_mul :: "jsnum \<Rightarrow> jsnum \<Rightarrow> jsnum" where
  "js_mul NaN _ = NaN"
| "js_mul _ NaN = NaN"
| "js_mul (Fin x) (Fin y) = Fin (x * y)"
| "js_mul a b =
     (if a = Fin 0 \<or> b = Fin 0 then NaN
      else if js_negative a = js_negative b then PosInf else NegInf)"

fun js_div :: "jsnum \<Rightarrow> jsnum \<Rightarrow> jsnum" where
  "js_div NaN _ = NaN"
| "js_div _ NaN = NaN"
| "js_div (Fin x) (Fin y) =
     (if y = 0 then (if x = 0 then NaN else if 0 < x then PosInf else NegInf)
      else Fin (x / y))"
| "js_div (Fin x) _ = Fin 0"
| "js_div a (Fin y) = (if js_negative a = (y < 0) then PosInf else NegInf)"
| "js_div _ _ = NaN"

text \<open>The comparison \<open>a >= b\<close>: false as soon as one side is NaN.\<close>

fun js_ge :: "jsnum \<Rightarrow> jsnum \<Rightarrow> bool" where
  "js_ge NaN _ = False"
| "js_ge _ NaN = False"
| "js_ge (Fin x) (Fin y) = (y \<le> x)"
| "js_ge PosInf _ = True"
| "js_ge _ NegInf = True"
| "js_ge _ _ = False"

definition js_le :: "jsnum \<Rightarrow> jsnum \<Rightarrow> bool" where
  "js_le a b = js_ge b a"

text \<open>The comparison \<open>a > b\<close>, again false on NaN.\<close>

definition js_gt :: "jsnum \<Rightarrow> jsnum \<Rightarrow> bool" where
  "js_gt a b = (js_ge a b \<and> a \<noteq> b)"

text \<open>\<open>Math.min\<close> of two arguments: NaN if either is NaN.\<close>

definition js_min :: "jsnum \<Rightarrow> jsnum \<Rightarrow> jsnum" where
  "js_min a b = (if a = NaN \<or> b = NaN then NaN else if js_ge b a then a else b)"

text \<open>\<open>Math.round\<close>: the nearest integer, a tie going towards plus infinity.\<close>

fun js_round :: "jsnum \<Rightarrow> jsnum" where
  "js_round (Fin x) = Fin (of_int \<lfloor>x + 1 / 2\<rfloor>)"
| "js_round a = a"

text \<open>Truthiness of a number, and \<open>a || b\<close> on numbers.\<close>

fun js_truthy :: "jsnum \<Rightarrow> bool" where
  "js_truthy (Fin x) = (x \<noteq> 0)"
| "js_truthy NaN = False"
| "js_truthy _ = True"

definition js_or :: "jsnum \<Rightarrow> jsnum \<Rightarrow> jsnum" where
  "js_or a b = (if js_truthy a then a else b)"

section \<open>Rounding\<close>

text \<open>
  An arithmetic operation of the language returns the exact result rounded to the nearest
  double, and a decimal literal denotes the double nearest to it. The rounding is a
  parameter \<open>fl\<close> of every function that computes with fractions: \<open>exact\<close> is arithmetic
  without rounding, \<open>double\<close> rounds to 53 significant bits, a tie going to the even
  significand. The exponent of \<open>double\<close> is not bounded: overflow to an infinity and
  underflow are outside this model. Integers (counters, indices, lengths, the integer
  fields of a request, the results of \<open>Math.round\<close>) are far below \<open>2^53\<close> and need no
  rounding.
\<close>

type_synonym rounding = "real \<Rightarrow> real"

definition exact :: rounding where
  "exact x = x"

definition roundEven :: "real \<Rightarrow> int" where
  "roundEven x =
     (let f = \<lfloor>x\<rfloor>; d = x - of_int f in
      if d < 1 / 2 then f else if 1 / 2 < d then f + 1 else if even f then f else f + 1)"

text \<open>
  Scaling a positive real by powers of 2 into \<open>[2^52, 2^53)\<close>, with the exponent; the
  first argument bounds the number of steps.
\<close>

fun normalise :: "nat \<Rightarrow> real \<Rightarrow> int \<Rightarrow> real \<times> int" where
  "normalise 0 x e = (x, e)"
| "normalise (Suc n) x e =
     (if x < 2 ^ 52 then normalise n (x * 2) (e - 1)
      else if 2 ^ 53 \<le> x then normalise n (x / 2) (e + 1)
      else (x, e))"

definition double :: rounding where
  "double x =
     (if x = 0 then 0
      else (case normalise 2200 \<bar>x\<bar> 0 of
              (m, e) \<Rightarrow>
                sgn x * of_int (roundEven m) * (if 0 \<le> e then 2 ^ nat e else 1 / 2 ^ nat (- e))))"

text \<open>
  A rounding that never crosses an integer below \<open>2^53\<close>: a real that is at least (at
  most) such an integer is rounded to a number that is at least (at most) that integer.
  Every monotone rounding that keeps these integers has this property, and so has
  \<open>double\<close> (lemmas \<open>monotone_keepsIntegerBounds\<close> and \<open>double_keepsIntegerBounds\<close>
  below).
\<close>

definition keepsIntegerBounds :: "rounding \<Rightarrow> bool" where
  "keepsIntegerBounds fl =
     (\<forall>i x. \<bar>i\<bar> < 2 ^ 53 \<longrightarrow>
        (of_int i \<le> x \<longrightarrow> of_int i \<le> fl x) \<and> (x \<le> of_int i \<longrightarrow> fl x \<le> of_int i))"

fun js_fl :: "rounding \<Rightarrow> jsnum \<Rightarrow> jsnum" where
  "js_fl fl (Fin x) = Fin (fl x)"
| "js_fl fl a = a"

text \<open>The operators \<open>+\<close>, \<open>-\<close>, \<open>*\<close> and \<open>/\<close> of the language.\<close>

definition fl_add :: "rounding \<Rightarrow> jsnum \<Rightarrow> jsnum \<Rightarrow> jsnum" where
  "fl_add fl a b = js_fl fl (js_add a b)"

definition fl_sub :: "rounding \<Rightarrow> jsnum \<Rightarrow> jsnum \<Rightarrow> jsnum" where
  "fl_sub fl a b = js_fl fl (js_sub a b)"

definition fl_mul :: "rounding \<Rightarrow> jsnum \<Rightarrow> jsnum \<Rightarrow> jsnum" where
  "fl_mul fl a b = js_fl fl (js_mul a b)"

definition fl_div :: "rounding \<Rightarrow> jsnum \<Rightarrow> jsnum \<Rightarrow> jsnum" where
  "fl_div fl a b = js_fl fl (js_div a b)"

section \<open>GrowthModel: getGrowthFactors\<close>

record growth_factors =
  monthlyGrowth :: real
  maxCapacity :: real

text \<open>The object literal \<open>factors\<close>: its own properties, in source order.\<close>

definition factors :: "(string \<times> growth_factors) list" where
  "factors =
    [(''B2B Manufacturing'', \<lparr>monthlyGrowth = 8 / 100, maxCapacity = 12 / 10\<rparr>),
     (''Penjualan Langsung (B2C)'', \<lparr>monthlyGrowth = 12 / 100, maxCapacity = 15 / 10\<rparr>),
     (''Layanan Berlangganan'', \<lparr>monthlyGrowth = 5 / 100, maxCapacity = 11 / 10\<rparr>),
     (''Waralaba (Franchise)'', \<lparr>monthlyGrowth = 6 / 100, maxCapacity = 13 / 10\<rparr>),
     (''Produksi (B2B)'', \<lparr>monthlyGrowth = 7 / 100, maxCapacity = 115 / 100\<rparr>)]"

definition defaultFactors :: growth_factors where
  "defaultFactors = \<lparr>monthlyGrowth = 8 / 100, maxCapacity = 12 / 10\<rparr>"

text \<open>
  \<open>factors[business_model]\<close> is a property read on an ordinary object, so a key that is
  not an own property is looked up on \<open>Object.prototype\<close>. These are the names that
  object defines; each of them holds a function or an object, hence a truthy value.
\<close>

definition objectPrototypeNames :: "string list" where
  "objectPrototypeNames =
    [''constructor'', ''hasOwnProperty'', ''isPrototypeOf'', ''propertyIsEnumerable'',
     ''toLocaleString'', ''toString'', ''valueOf'', ''__proto__'',
     ''__defineGetter__'', ''__defineSetter__'', ''__lookupGetter__'', ''__lookupSetter__'']"

text \<open>
  What \<open>getGrowthFactors\<close> returns: a row of numeric factors, or the inherited member
  found under the given name.
\<close>

datatype factors_value = Row growth_factors | Inherited string

text \<open>The label is a string or \<open>null\<close> (\<open>None\<close>), which is read as the key \<open>null\<close>.\<close>

definition propertyKey :: "string option \<Rightarrow> string" where
  "propertyKey business_model = (case business_model of None \<Rightarrow> ''null'' | Some s \<Rightarrow> s)"

definition getGrowthFactors :: "string option \<Rightarrow> factors_value" where
  "getGrowthFactors business_model =
     (let key = propertyKey business_model in
      case map_of factors key of
        Some row \<Rightarrow> Row row
      | None \<Rightarrow>
          if key \<in> set objectPrototypeNames then Inherited key
          else Row defaultFactors)"

text \<open>
  Reading \<open>.monthlyGrowth\<close> or \<open>.maxCapacity\<close> of the returned value for arithmetic:
  the double of the literal of the row; an inherited member has neither property, and
  \<open>undefined\<close> is NaN in arithmetic.
\<close>

fun monthlyGrowthOf :: "rounding \<Rightarrow> factors_value \<Rightarrow> jsnum" where
  "monthlyGrowthOf fl (Row r) = Fin (fl (monthlyGrowth r))"
| "monthlyGrowthOf fl (Inherited _) = NaN"

fun maxCapacityOf :: "rounding \<Rightarrow> factors_value \<Rightarrow> jsnum" where
  "maxCapacityOf fl (Row r) = Fin (fl (maxCapacity r))"
| "maxCapacityOf fl (Inherited _) = NaN"

section \<open>SeasonalityModel: getSeasonalMultiplier\<close>

text \<open>The remainder operator \<open>%\<close> on integers: the result has the sign of the dividend.\<close>

definition js_rem :: "int \<Rightarrow> int \<Rightarrow> int" where
  "js_rem a b = sgn a * (\<bar>a\<bar> mod \<bar>b\<bar>)"

definition seasonalPatterns :: "(int \<times> real) list" where
  "seasonalPatterns =
    [(1, 9 / 10), (2, 95 / 100), (3, 1), (4, 1), (5, 105 / 100), (6, 11 / 10),
     (7, 115 / 100), (8, 11 / 10), (9, 105 / 100), (10, 1), (11, 95 / 100), (12, 9 / 10)]"

definition getSeasonalMultiplier :: "rounding \<Rightarrow> int \<Rightarrow> jsnum" where
  "getSeasonalMultiplier fl m =
     (case map_of seasonalPatterns (js_rem (m - 1) 12 + 1) of
        Some v \<Rightarrow> js_or (Fin (fl v)) (Fin 1)
      | None \<Rightarrow> Fin 1)"

section \<open>MonthlyProjectionGenerator: generateDynamicMonthlyData\<close>

record financial_details =
  initial_investment :: int
  expected_monthly_revenue :: int
  monthly_operating_cost :: int
  timeframe :: int

record financial_inputs = financial_details +
  business_model :: "string option"

record monthly_point =
  month :: int
  revenue :: jsnum
  cost :: jsnum
  profit :: jsnum
  cumulativeProfit :: jsnum
  revenueGrowth :: jsnum
  capacityUtilization :: jsnum

text \<open>
  The variables of the loop. \<open>Math.random()\<close> is a sequence \<open>rnd 0, rnd 1, \<dots>\<close> of
  reals given from outside; \<open>draws\<close> counts the calls made so far, so that the next
  call returns \<open>rnd (draws s)\<close>.
\<close>

record loop_state =
  loop_month :: int
  currentRevenue :: jsnum
  currentCost :: jsnum
  draws :: nat
  monthlyData :: "monthly_point list"

text \<open>The term \<open>1 + (Math.random() * 0.1 - 0.05)\<close> for the draw \<open>r\<close>.\<close>

definition variance :: "rounding \<Rightarrow> real \<Rightarrow> real" where
  "variance fl r = fl (1 + fl (fl (r * fl (1 / 10)) - fl (5 / 100)))"

text \<open>\<open>currentRevenue\<close> after the block \<open>if (month > 1) { \<dots> }\<close>, and the draws used.\<close>

definition grownRevenue ::
  "rounding \<Rightarrow> 'a financial_inputs_scheme \<Rightarrow> factors_value \<Rightarrow> (nat \<Rightarrow> real) \<Rightarrow> loop_state
    \<Rightarrow> jsnum" where
  "grownRevenue fl inp growthFactors rnd s =
     (if loop_month s > 1 then
        (let growthRate =
               fl_mul fl (monthlyGrowthOf fl growthFactors) (Fin (variance fl (rnd (draws s))))
         in js_min (fl_mul fl (currentRevenue s) (fl_add fl (Fin 1) growthRate))
                   (fl_mul fl (Fin (of_int (expected_monthly_revenue inp)))
                              (maxCapacityOf fl growthFactors)))
      else currentRevenue s)"

definition drawsAfterGrowth :: "loop_state \<Rightarrow> nat" where
  "drawsAfterGrowth s = (if loop_month s > 1 then draws s + 1 else draws s)"

definition variedCost ::
  "rounding \<Rightarrow> 'a financial_inputs_scheme \<Rightarrow> (nat \<Rightarrow> real) \<Rightarrow> loop_state \<Rightarrow> jsnum" where
  "variedCost fl inp rnd s =
     (let costVariation = variance fl (rnd (drawsAfterGrowth s))
      in fl_mul fl (Fin (of_int (monthly_operating_cost inp))) (Fin costVariation))"

definition adjustedRevenue ::
  "rounding \<Rightarrow> 'a financial_inputs_scheme \<Rightarrow> factors_value \<Rightarrow> (nat \<Rightarrow> real) \<Rightarrow> loop_state
    \<Rightarrow> jsnum" where
  "adjustedRevenue fl inp growthFactors rnd s =
     fl_mul fl (grownRevenue fl inp growthFactors rnd s) (getSeasonalMultiplier fl (loop_month s))"

definition monthProfit ::
  "rounding \<Rightarrow> 'a financial_inputs_scheme \<Rightarrow> factors_value \<Rightarrow> (nat \<Rightarrow> real) \<Rightarrow> loop_state
    \<Rightarrow> jsnum" where
  "monthProfit fl inp growthFactors rnd s =
     fl_sub fl (adjustedRevenue fl inp growthFactors rnd s) (variedCost fl inp rnd s)"

text \<open>The local \<open>cumulativeProfit\<close>, before it is rounded for storage.\<close>

definition runningProfit ::
  "rounding \<Rightarrow> 'a financial_inputs_scheme \<Rightarrow> factors_value \<Rightarrow> (nat \<Rightarrow> real) \<Rightarrow> loop_state
    \<Rightarrow> jsnum" where
  "runningProfit fl inp growthFactors rnd s =
     (if length (monthlyData s) > 0
      then fl_add fl (cumulativeProfit (last (monthlyData s)))
                     (monthProfit fl inp growthFactors rnd s)
      else fl_sub fl (monthProfit fl inp growthFactors rnd s)
                     (Fin (of_int (initial_investment inp))))"

text \<open>
  \<open>monthlyData[month - 2]?.revenue || adjustedRevenue\<close>: an index outside the array
  gives \<open>undefined\<close>, which is falsy.
\<close>

definition previousRevenue :: "loop_state \<Rightarrow> jsnum \<Rightarrow> jsnum" where
  "previousRevenue s adjusted =
     (let i = loop_month s - 2 in
      if 0 \<le> i \<and> nat i < length (monthlyData s)
      then js_or (revenue (monthlyData s ! nat i)) adjusted
      else adjusted)"

definition newPoint ::
  "rounding \<Rightarrow> 'a financial_inputs_scheme \<Rightarrow> factors_value \<Rightarrow> (nat \<Rightarrow> real) \<Rightarrow> loop_state
    \<Rightarrow> monthly_point" where
  "newPoint fl inp growthFactors rnd s =
     (let adjusted = adjustedRevenue fl inp growthFactors rnd s;
          previous = previousRevenue s adjusted
      in \<lparr>month = loop_month s,
          revenue = js_round adjusted,
          cost = js_round (variedCost fl inp rnd s),
          profit = js_round (monthProfit fl inp growthFactors rnd s),
          cumulativeProfit = js_round (runningProfit fl inp growthFactors rnd s),
          revenueGrowth =
            js_round (fl_mul fl (fl_div fl (fl_sub fl adjusted previous) previous) (Fin 100)),
          capacityUtilization =
            js_round (fl_mul fl
                        (fl_div fl adjusted (Fin (of_int (expected_monthly_revenue inp))))
                        (Fin 100))\<rparr>)"

text \<open>One pass through the body of the loop, with the increment of \<open>month\<close>.\<close>

definition monthBody ::
  "rounding \<Rightarrow> 'a financial_inputs_scheme \<Rightarrow> factors_value \<Rightarrow> (nat \<Rightarrow> real) \<Rightarrow> loop_state
    \<Rightarrow> loop_state" where
  "monthBody fl inp growthFactors rnd s =
     \<lparr>loop_month = loop_month s + 1,
      currentRevenue = grownRevenue fl inp growthFactors rnd s,
      currentCost = variedCost fl inp rnd s,
      draws = drawsAfterGrowth s + 1,
      monthlyData = monthlyData s @ [newPoint fl inp growthFactors rnd s]\<rparr>"

function monthLoop ::
  "rounding \<Rightarrow> 'a financial_inputs_scheme \<Rightarrow> factors_value \<Rightarrow> (nat \<Rightarrow> real) \<Rightarrow> loop_state
    \<Rightarrow> loop_state" where
  "monthLoop fl inp growthFactors rnd s =
     (if loop_month s \<le> timeframe inp
      then monthLoop fl inp growthFactors rnd (monthBody fl inp growthFactors rnd s)
      else s)"
  by pat_completeness auto
termination
  by (relation
      "measure (\<lambda>(fl, inp, growthFactors, rnd, s). nat (timeframe inp + 1 - loop_month s))")
     (auto simp: monthBody_def)

declare monthLoop.simps [simp del]

definition initialState :: "rounding \<Rightarrow> 'a financial_inputs_scheme \<Rightarrow> loop_state" where
  "initialState fl inp =
     \<lparr>loop_month = 1,
      currentRevenue = fl_mul fl (Fin (of_int (expected_monthly_revenue inp))) (Fin (fl (6 / 10))),
      currentCost = Fin (of_int (monthly_operating_cost inp)),
      draws = 0,
      monthlyData = []\<rparr>"

definition generateDynamicMonthlyData ::
  "rounding \<Rightarrow> 'a financial_inputs_scheme \<Rightarrow> (nat \<Rightarrow> real) \<Rightarrow> monthly_point list" where
  "generateDynamicMonthlyData fl inp rnd =
     (let growthFactors = getGrowthFactors (business_model inp)
      in monthlyData (monthLoop fl inp growthFactors rnd (initialState fl inp)))"

text \<open>
  The state of the loop after \<open>k\<close> passes through its body. The loop of
  \<open>generateDynamicMonthlyData\<close> goes through these states for \<open>k\<close> up to the
  timeframe (lemma \<open>monthLoop_funpow\<close> below); the locals of month \<open>k + 1\<close>, such as
  \<open>adjustedRevenue\<close>, are read off the state after \<open>k\<close> passes.
\<close>

definition stateAfter ::
  "rounding \<Rightarrow> 'a financial_inputs_scheme \<Rightarrow> factors_value \<Rightarrow> (nat \<Rightarrow> real) \<Rightarrow> nat
    \<Rightarrow> loop_state" where
  "stateAfter fl inp growthFactors rnd k =
     (monthBody fl inp growthFactors rnd ^^ k) (initialState fl inp)"

text \<open>
  The locals \<open>adjustedRevenue\<close> and \<open>profit\<close> of the pass that follows \<open>k\<close> passes, that
  is, of month \<open>k + 1\<close>, whose data point has the index \<open>k\<close>; and \<open>currentRevenue\<close> after
  \<open>k\<close> passes.
\<close>

definition adjustedRevenueAt ::
  "rounding \<Rightarrow> 'a financial_inputs_scheme \<Rightarrow> (nat \<Rightarrow> real) \<Rightarrow> nat \<Rightarrow> jsnum" where
  "adjustedRevenueAt fl inp rnd k =
     (let growthFactors = getGrowthFactors (business_model inp)
      in adjustedRevenue fl inp growthFactors rnd (stateAfter fl inp growthFactors rnd k))"

definition profitAt ::
  "rounding \<Rightarrow> 'a financial_inputs_scheme \<Rightarrow> (nat \<Rightarrow> real) \<Rightarrow> nat \<Rightarrow> jsnum" where
  "profitAt fl inp rnd k =
     (let growthFactors = getGrowthFactors (business_model inp)
      in monthProfit fl inp growthFactors rnd (stateAfter fl inp growthFactors rnd k))"

definition currentRevenueAfter ::
  "rounding \<Rightarrow> 'a financial_inputs_scheme \<Rightarrow> (nat \<Rightarrow> real) \<Rightarrow> nat \<Rightarrow> jsnum" where
  "currentRevenueAfter fl inp rnd k =
     currentRevenue (stateAfter fl inp (getGrowthFactors (business_model inp)) rnd k)"

section \<open>PaybackPeriodEstimator: calculateDynamicPaybackPeriod\<close>

text \<open>The parameter \<open>monthlyData\<close> of the functions below is written \<open>mdata\<close>.\<close>

function paybackScan :: "rounding \<Rightarrow> monthly_point list \<Rightarrow> nat \<Rightarrow> real" where
  "paybackScan fl mdata i =
     (if i < length mdata
      then (if js_ge (cumulativeProfit (mdata ! i)) (Fin 0)
            then fl ((real i + 1) / 12)
            else paybackScan fl mdata (i + 1))
      else fl (real (length mdata) / 12))"
  by pat_completeness auto
termination
  by (relation "measure (\<lambda>(fl, mdata, i). length mdata - i)") auto

declare paybackScan.simps [simp del]

definition calculateDynamicPaybackPeriod ::
  "rounding \<Rightarrow> monthly_point list \<Rightarrow> int \<Rightarrow> real" where
  "calculateDynamicPaybackPeriod fl mdata initialInvestment = paybackScan fl mdata 0"

section \<open>ChartDataBuilder\<close>

text \<open>
  \<open>Math.ceil(length / targetPoints)\<close>, and the test \<open>index % sampleRate === 0\<close> of the
  filter. A remainder by zero is NaN, so with a sample rate of 0 no index passes. The
  sample rate is an integer computed from the length of an array; it is taken as the
  ceiling of the exact quotient.
\<close>

definition sampleRateOf :: "nat \<Rightarrow> nat \<Rightarrow> nat" where
  "sampleRateOf len targetPoints = nat \<lceil>real len / real targetPoints\<rceil>"

definition keepIndex :: "nat \<Rightarrow> nat \<Rightarrow> bool" where
  "keepIndex sampleRate index = (sampleRate \<noteq> 0 \<and> index mod sampleRate = 0)"

definition sampleEvery :: "nat \<Rightarrow> 'a list \<Rightarrow> 'a list" where
  "sampleEvery sampleRate xs =
     map snd (filter (\<lambda>(index, item). keepIndex sampleRate index) (enumerate 0 xs))"

text \<open>The template \<open>`Month ${item.month}`\<close>: the decimal numeral of an integer.\<close>

definition digitChar :: "nat \<Rightarrow> char" where
  "digitChar d = ''0123456789'' ! d"

fun natString :: "nat \<Rightarrow> string" where
  "natString n =
     (if n < 10 then [digitChar n] else natString (n div 10) @ [digitChar (n mod 10)])"

declare natString.simps [simp del]

definition numberString :: "int \<Rightarrow> string" where
  "numberString i = (if i < 0 then CHR ''-'' # natString (nat (- i)) else natString (nat i))"

definition monthLabel :: "int \<Rightarrow> string" where
  "monthLabel m = ''Month '' @ numberString m"

text \<open>
  A chart: its labels and its datasets. Of a dataset the label and the data are kept;
  the colours and the other constant drawing options of the source are left out.
\<close>

record dataset =
  label :: string
  data :: "jsnum list"

record chart_data =
  labels :: "string list"
  datasets :: "dataset list"

definition generateRevenueCostChartData :: "monthly_point list \<Rightarrow> chart_data" where
  "generateRevenueCostChartData mdata =
     (let sampleRate = sampleRateOf (length mdata) 24;
          sampledData = sampleEvery sampleRate mdata
      in \<lparr>labels = map (\<lambda>item. monthLabel (month item)) sampledData,
          datasets =
            [\<lparr>label = ''Revenue'', data = map revenue sampledData\<rparr>,
             \<lparr>label = ''Cost'', data = map cost sampledData\<rparr>,
             \<lparr>label = ''Profit'', data = map profit sampledData\<rparr>]\<rparr>)"

record roi_point =
  roi_month :: int
  roi :: jsnum

text \<open>The \<open>roi\<close> of an item of \<open>roiData\<close>.\<close>

definition monthRoi :: "rounding \<Rightarrow> monthly_point \<Rightarrow> int \<Rightarrow> jsnum" where
  "monthRoi fl item initialInvestment =
     fl_mul fl (fl_div fl (fl_add fl (cumulativeProfit item) (Fin (of_int initialInvestment)))
                          (Fin (of_int initialInvestment)))
               (Fin 100)"

definition generateRoiGrowthChartData ::
  "rounding \<Rightarrow> monthly_point list \<Rightarrow> jsnum \<Rightarrow> int \<Rightarrow> chart_data" where
  "generateRoiGrowthChartData fl mdata finalROI initialInvestment =
     (let roiData =
            map (\<lambda>item. \<lparr>roi_month = month item, roi = monthRoi fl item initialInvestment\<rparr>)
                mdata;
          sampleRate = sampleRateOf (length roiData) 12;
          sampledROIData = sampleEvery sampleRate roiData
      in \<lparr>labels = map (\<lambda>item. monthLabel (roi_month item)) sampledROIData,
          datasets =
            [\<lparr>label = ''ROI Progress'',
              data = map (\<lambda>item. js_min (roi item) finalROI) sampledROIData\<rparr>,
             \<lparr>label = ''Target ROI'', data = map (\<lambda>item. finalROI) sampledROIData\<rparr>]\<rparr>)"

section \<open>PerformanceMetricsCalculator: generatePerformanceMetrics\<close>

text \<open>
  The stored result with its financial details: integer columns, and two float columns
  that hold finite numbers.
\<close>

record roi_result =
  financialDetails :: financial_details
  roi_percentage :: real
  net_profit :: int
  payback_period_years :: real

record metrics_summary =
  summary_roi :: real
  netProfit :: int
  paybackPeriod :: real
  totalMonths :: int

record metrics_averages =
  monthlyRevenue :: int
  monthlyCost :: int
  monthlyProfit :: int

record metrics_efficiency =
  profitMargin :: jsnum
  investmentEfficiency :: jsnum

record performance_metrics =
  summary :: metrics_summary
  averages :: metrics_averages
  efficiency :: metrics_efficiency

text \<open>
  \<open>net_profit / (expected_monthly_revenue * timeframe)\<close>: the product is computed in
  the arithmetic \<open>fl\<close>, then the quotient. The product of two integers is the zero \<open>-0\<close>
  when one factor is 0 and the other negative; dividing by \<open>-0\<close> gives the opposite of
  dividing by \<open>+0\<close>.
\<close>

definition profitPerRevenue :: "rounding \<Rightarrow> int \<Rightarrow> int \<Rightarrow> int \<Rightarrow> jsnum" where
  "profitPerRevenue fl np monthly months =
     (if (monthly = 0 \<and> months < 0) \<or> (monthly < 0 \<and> months = 0)
      then js_neg (fl_div fl (Fin (of_int np)) (Fin 0))
      else fl_div fl (Fin (of_int np))
             (fl_mul fl (Fin (of_int monthly)) (Fin (of_int months))))"

definition generatePerformanceMetrics :: "rounding \<Rightarrow> roi_result \<Rightarrow> performance_metrics" where
  "generatePerformanceMetrics fl roiResult =
     (let details = financialDetails roiResult in
      \<lparr>summary =
         \<lparr>summary_roi = roi_percentage roiResult,
          netProfit = net_profit roiResult,
          paybackPeriod = payback_period_years roiResult,
          totalMonths = timeframe details\<rparr>,
       averages =
         \<lparr>monthlyRevenue = expected_monthly_revenue details,
          monthlyCost = monthly_operating_cost details,
          monthlyProfit = expected_monthly_revenue details - monthly_operating_cost details\<rparr>,
       efficiency =
         \<lparr>profitMargin =
            js_or (fl_mul fl (profitPerRevenue fl (net_profit roiResult)
                                (expected_monthly_revenue details) (timeframe details))
                             (Fin 100))
                  (Fin 0),
          investmentEfficiency =
            fl_mul fl (fl_div fl (Fin (of_int (net_profit roiResult)))
                                 (Fin (of_int (initial_investment details))))
                      (Fin 100)\<rparr>\<rparr>)"

section \<open>Example inputs\<close>

text \<open>
  A random source without variance (every draw is \<open>0.5\<close>, so both variance terms are
  \<open>1\<close>), and three inputs: the venture of the specification's end-to-end example over
  three months, a venture with an expected monthly revenue of 1, and the first venture
  under the business model \<open>constructor\<close>.
\<close>

definition noVariance :: "nat \<Rightarrow> real" where
  "noVariance n = 1 / 2"

definition sampleVenture :: financial_inputs where
  "sampleVenture = \<lparr>initial_investment = 100000, expected_monthly_revenue = 20000,
     monthly_operating_cost = 12000, timeframe = 3, business_model = None\<rparr>"

definition tinyVenture :: financial_inputs where
  "tinyVenture = \<lparr>initial_investment = 1000, expected_monthly_revenue = 1,
     monthly_operating_cost = 1, timeframe = 2, business_model = None\<rparr>"

definition constructorVenture :: financial_inputs where
  "constructorVenture = \<lparr>initial_investment = 100000, expected_monthly_revenue = 20000,
     monthly_operating_cost = 12000, timeframe = 3, business_model = Some ''constructor''\<rparr>"

text \<open>
  The first venture over one month, and a random source whose draws are
  \<open>2249923313840516 / 2^52\<close>, about 0.4995833333333346: with it the cost of a month is
  the double next above 11999.5.
\<close>

definition oneMonthVenture :: financial_inputs where
  "oneMonthVenture = \<lparr>initial_investment = 100000, expected_monthly_revenue = 20000,
     monthly_operating_cost = 12000, timeframe = 1, business_model = None\<rparr>"

definition boundaryDraw :: "nat \<Rightarrow> real" where
  "boundaryDraw n = 2249923313840516 / 4503599627370496"

text \<open>
  A series of \<open>n\<close> months whose cumulative profit in month \<open>m\<close> is \<open>m - 5\<close>: negative in
  the months 1 to 4 and not negative from month 5 on.
\<close>

definition rampPoint :: "int \<Rightarrow> monthly_point" where
  "rampPoint m =
     \<lparr>month = m, revenue = Fin 10, cost = Fin 9, profit = Fin 1,
      cumulativeProfit = Fin (of_int (m - 5)), revenueGrowth = Fin 0,
      capacityUtilization = Fin 50\<rparr>"

definition rampSeries :: "nat \<Rightarrow> monthly_point list" where
  "rampSeries n = map (\<lambda>j. rampPoint (1 + int j)) [0..<n]"

text \<open>
  A stored result with an expected monthly revenue of 0, as the controller stores it for
  the request field \<open>expected_monthly_revenue: "0.5"\<close> (a truthy string that \<open>parseInt\<close>
  reads as 0) with twelve months at a cost of 12000 and no variance.
\<close>

definition zeroRevenueResult :: roi_result where
  "zeroRevenueResult =
     \<lparr>financialDetails =
        \<lparr>initial_investment = 100000, expected_monthly_revenue = 0,
         monthly_operating_cost = 12000, timeframe = 12\<rparr>,
      roi_percentage = - 144, net_profit = - 144000, payback_period_years = 1\<rparr>"

section \<open>Rounding: exact arithmetic, and evaluating doubles\<close>

lemma js_fl_exact [simp]: "js_fl exact a = a"
  by (cases a) (simp_all add: exact_def)

lemma fl_exact [simp]:
  "fl_add exact = js_add" "fl_sub exact = js_sub" "fl_mul exact = js_mul" "fl_div exact = js_div"
  by (simp_all add: fl_add_def fl_sub_def fl_mul_def fl_div_def fun_eq_iff)

lemma js_fl_NaN [simp]: "js_fl fl a = NaN \<longleftrightarrow> a = NaN"
  by (cases a) simp_all

lemma normalise_numeral:
  "normalise (numeral k) x e =
     (if x < 2 ^ 52 then normalise (pred_numeral k) (x * 2) (e - 1)
      else if 2 ^ 53 \<le> x then normalise (pred_numeral k) (x / 2) (e + 1)
      else (x, e))"
  by (simp add: numeral_eq_Suc)

lemmas double_eval = double_def normalise_numeral roundEven_def

text \<open>
  The doubles of the literals \<open>0.6\<close>, \<open>0.9\<close>, \<open>0.95\<close>, \<open>0.1\<close>, \<open>0.05\<close>, \<open>0.08\<close> and
  \<open>1.2\<close>, as written and as fractions in lowest terms.
\<close>

lemma double_literals:
  "double (6 / 10) = 5404319552844595 / 9007199254740992"
  "double (3 / 5) = 5404319552844595 / 9007199254740992"
  "double (9 / 10) = 8106479329266893 / 9007199254740992"
  "double (95 / 100) = 4278419646001971 / 4503599627370496"
  "double (19 / 20) = 4278419646001971 / 4503599627370496"
  "double (1 / 10) = 3602879701896397 / 36028797018963968"
  "double (5 / 100) = 3602879701896397 / 72057594037927936"
  "double (1 / 20) = 3602879701896397 / 72057594037927936"
  "double (8 / 100) = 5764607523034235 / 72057594037927936"
  "double (2 / 25) = 5764607523034235 / 72057594037927936"
  "double (12 / 10) = 5404319552844595 / 4503599627370496"
  "double (6 / 5) = 5404319552844595 / 4503599627370496"
  by (simp_all add: double_eval)

lemma double_integers: "double 1 = 1" "double 0 = 0"
  by (simp_all add: double_eval)

text \<open>
  The rounding \<open>double\<close> never crosses an integer below \<open>2^53\<close>: below \<open>2^53\<close> it rounds
  a multiple \<open>x * 2^k\<close> to an integer, and from \<open>2^53\<close> on its results are at least \<open>2^53\<close>.
\<close>

lemma roundEven_lower: "of_int j \<le> x \<Longrightarrow> j \<le> roundEven x"
proof -
  assume "of_int j \<le> x"
  then have "j \<le> \<lfloor>x\<rfloor>" by (simp add: le_floor_iff)
  moreover have "\<lfloor>x\<rfloor> \<le> roundEven x" by (simp add: roundEven_def Let_def)
  ultimately show ?thesis by simp
qed

lemma roundEven_upper: "x \<le> of_int j \<Longrightarrow> roundEven x \<le> j"
proof (cases "x = of_int \<lfloor>x\<rfloor>")
  case True
  assume "x \<le> of_int j"
  then have "\<lfloor>x\<rfloor> \<le> j" by (simp add: floor_le_iff) 
  moreover from True have "roundEven x = \<lfloor>x\<rfloor>" by (simp add: roundEven_def Let_def)
  ultimately show ?thesis by simp
next
  case False
  assume le: "x \<le> of_int j"
  from False of_int_floor_le [of x] have "of_int \<lfloor>x\<rfloor> < x" by linarith
  with le have "of_int \<lfloor>x\<rfloor> < (of_int j :: real)" by simp
  then have "\<lfloor>x\<rfloor> < j" by simp
  moreover have "roundEven x \<le> \<lfloor>x\<rfloor> + 1" by (simp add: roundEven_def Let_def)
  ultimately show ?thesis by simp
qed

lemma normalise_in_range:
  "2 ^ 52 \<le> x \<Longrightarrow> x < 2 ^ 53 \<Longrightarrow> normalise n x e = (x, e)"
  by (cases n) simp_all

lemma normalise_small:
  "x < 2 ^ 53 \<Longrightarrow> \<exists>k. normalise n x e = (x * 2 ^ k, e - int k)"
proof (induction n arbitrary: x e)
  case 0
  have "normalise 0 x e = (x * 2 ^ 0, e - int 0)" by simp
  then show ?case by blast
next
  case (Suc n)
  show ?case
  proof (cases "x < 2 ^ 52")
    case True
    then have "x * 2 < 2 ^ 53" by simp
    from Suc.IH [OF this] obtain k where
      "normalise n (x * 2) (e - 1) = (x * 2 * 2 ^ k, e - 1 - int k)" by blast
    with True have "normalise (Suc n) x e = (x * 2 ^ Suc k, e - int (Suc k))" by simp
    then show ?thesis by blast
  next
    case False
    with Suc.prems have "normalise (Suc n) x e = (x * 2 ^ 0, e - int 0)" by simp
    then show ?thesis by blast
  qed
qed

lemma normalise_large:
  "2 ^ 53 \<le> x \<Longrightarrow> \<exists>k. normalise n x e = (x / 2 ^ k, e + int k) \<and> 2 ^ 52 \<le> x / 2 ^ k"
proof (induction n arbitrary: x e)
  case 0
  then have "normalise 0 x e = (x / 2 ^ 0, e + int 0) \<and> 2 ^ 52 \<le> x / 2 ^ 0" by simp
  then show ?case by blast
next
  case (Suc n)
  then have half: "2 ^ 52 \<le> x / 2" by simp
  from Suc.prems have step: "normalise (Suc n) x e = normalise n (x / 2) (e + 1)" by simp
  show ?case
  proof (cases "2 ^ 53 \<le> x / 2")
    case True
    from Suc.IH [OF this] obtain k where
      "normalise n (x / 2) (e + 1) = (x / 2 / 2 ^ k, e + 1 + int k)" "2 ^ 52 \<le> x / 2 / 2 ^ k"
      by blast
    with step have "normalise (Suc n) x e = (x / 2 ^ Suc k, e + int (Suc k))
        \<and> 2 ^ 52 \<le> x / 2 ^ Suc k" by simp
    then show ?thesis by blast
  next
    case False
    then have "x / 2 < 2 ^ 53" by simp
    from normalise_in_range [OF half this] step half
    have "normalise (Suc n) x e = (x / 2 ^ Suc 0, e + int (Suc 0)) \<and> 2 ^ 52 \<le> x / 2 ^ Suc 0"
      by simp
    then show ?thesis by blast
  qed
qed

lemma double_small:
  assumes "0 < x" "x < 2 ^ 53"
  shows "\<exists>k. double x = of_int (roundEven (x * 2 ^ k)) / 2 ^ k"
proof -
  from assms have a: "\<bar>x\<bar> < 2 ^ 53" by simp
  from normalise_small [OF a, of 2200 0] obtain k where
    k: "normalise 2200 \<bar>x\<bar> 0 = (\<bar>x\<bar> * 2 ^ k, 0 - int k)" by blast
  from assms k have "double x = of_int (roundEven (x * 2 ^ k)) / 2 ^ k"
    by (cases "k = 0") (simp_all add: double_def)
  then show ?thesis by blast
qed

lemma double_large:
  assumes "2 ^ 53 \<le> x"
  shows "2 ^ 53 \<le> double x"
proof -
  from assms have pos: "0 < x" by (rule less_le_trans [rotated]) simp
  from assms have a: "2 ^ 53 \<le> \<bar>x\<bar>" by simp
  from normalise_large [OF a, of 2200 0] obtain k where
    k: "normalise 2200 \<bar>x\<bar> 0 = (\<bar>x\<bar> / 2 ^ k, 0 + int k)" "2 ^ 52 \<le> \<bar>x\<bar> / 2 ^ k" by blast
  from pos k(1) have d: "double x = of_int (roundEven (x / 2 ^ k)) * 2 ^ k"
    by (simp add: double_def)
  show ?thesis
  proof (cases k)
    case 0
    with assms have "of_int (2 ^ 53) \<le> x / 2 ^ k" by simp
    then have "2 ^ 53 \<le> roundEven (x / 2 ^ k)" by (rule roundEven_lower)
    then have "(2 ^ 53 :: real) \<le> of_int (roundEven (x / 2 ^ k))" 
      using of_int_le_iff [of "2 ^ 53" "roundEven (x / 2 ^ k)", where ?'a = real] by simp
    with 0 d show ?thesis by simp
  next
    case (Suc j)
    from pos k(2) have "of_int (2 ^ 52) \<le> x / 2 ^ k" by simp
    then have "2 ^ 52 \<le> roundEven (x / 2 ^ k)" by (rule roundEven_lower)
    then have r: "(2 ^ 52 :: real) \<le> of_int (roundEven (x / 2 ^ k))" 
      using of_int_le_iff [of "2 ^ 52" "roundEven (x / 2 ^ k)", where ?'a = real] by simp
    have "(2::real) \<le> 2 ^ k" unfolding Suc by simp
    with r have "(2 ^ 52 :: real) * 2 \<le> of_int (roundEven (x / 2 ^ k)) * 2 ^ k"
      by (intro mult_mono) simp_all
    with d show ?thesis by simp
  qed
qed

lemma double_minus: "double (- x) = - double x"
  by (simp add: double_def sgn_if split: prod.splits)

lemma double_nonneg: "0 \<le> x \<Longrightarrow> 0 \<le> double x"
proof (cases "x < 2 ^ 53")
  case True
  assume x: "0 \<le> x"
  show ?thesis
  proof (cases "x = 0")
    case True
    then show ?thesis by (simp add: double_def)
  next
    case False
    with x have "0 < x" by simp
    from double_small [OF this True] obtain k where
      k: "double x = of_int (roundEven (x * 2 ^ k)) / 2 ^ k" by blast
    from x have "of_int 0 \<le> x * 2 ^ k" by simp
    then have "0 \<le> roundEven (x * 2 ^ k)" by (rule roundEven_lower)
    with k show ?thesis by simp
  qed
next
  case False
  then have "2 ^ 53 \<le> x" by simp
  from double_large [OF this] show ?thesis by simp
qed

lemma double_lower_pos:
  assumes x: "0 < x" and i: "i < 2 ^ 53" and le: "of_int i \<le> x"
  shows "of_int i \<le> double x"
proof (cases "x < 2 ^ 53")
  case True
  from double_small [OF x True] obtain k where
    k: "double x = of_int (roundEven (x * 2 ^ k)) / 2 ^ k" by blast
  from le have "of_int (i * 2 ^ k) \<le> x * 2 ^ k" by simp
  then have "i * 2 ^ k \<le> roundEven (x * 2 ^ k)" by (rule roundEven_lower)
  then have "(of_int (i * 2 ^ k) :: real) \<le> of_int (roundEven (x * 2 ^ k))" by (simp only: of_int_le_iff)
  then have "of_int i * 2 ^ k \<le> (of_int (roundEven (x * 2 ^ k)) :: real)" by simp
  then have "of_int i \<le> (of_int (roundEven (x * 2 ^ k)) :: real) / 2 ^ k"
    by (simp add: pos_le_divide_eq)
  with k show ?thesis by simp
next
  case False
  then have "2 ^ 53 \<le> x" by simp
  from double_large [OF this] have "2 ^ 53 \<le> double x" .
  moreover from i have "(of_int i :: real) < of_int (2 ^ 53)" by (simp only: of_int_less_iff)
  ultimately show ?thesis by simp
qed

lemma double_upper_pos:
  assumes x: "0 < x" and i: "i < 2 ^ 53" and le: "x \<le> of_int i"
  shows "double x \<le> of_int i"
proof -
  from i have "(of_int i :: real) < of_int (2 ^ 53)" by (simp only: of_int_less_iff)
  with le have small: "x < 2 ^ 53" by simp
  from double_small [OF x small] obtain k where
    k: "double x = of_int (roundEven (x * 2 ^ k)) / 2 ^ k" by blast
  from le have "x * 2 ^ k \<le> of_int (i * 2 ^ k)" by simp
  then have "roundEven (x * 2 ^ k) \<le> i * 2 ^ k" by (rule roundEven_upper)
  then have "(of_int (roundEven (x * 2 ^ k)) :: real) \<le> of_int (i * 2 ^ k)" by (simp only: of_int_le_iff)
  then have "(of_int (roundEven (x * 2 ^ k)) :: real) \<le> of_int i * 2 ^ k" by simp
  then have "(of_int (roundEven (x * 2 ^ k)) :: real) / 2 ^ k \<le> of_int i"
    by (simp add: pos_divide_le_eq)
  with k show ?thesis by simp
qed

lemma double_lower:
  assumes i: "\<bar>i\<bar> < 2 ^ 53" and le: "of_int i \<le> x"
  shows "of_int i \<le> double x"
proof -
  consider "0 < x" | "x = 0" | "x < 0" by linarith
  then show ?thesis
  proof cases
    case 1
    from i have "i < 2 ^ 53" by simp
    from double_lower_pos [OF 1 this le] show ?thesis .
  next
    case 2
    with le show ?thesis by (simp add: double_def)
  next
    case 3
    then have p: "0 < - x" by simp
    from i have b: "- i < 2 ^ 53" by simp
    from le have "- x \<le> of_int (- i)" by simp
    from double_upper_pos [OF p b this] show ?thesis by (simp add: double_minus)
  qed
qed

lemma double_upper:
  assumes i: "\<bar>i\<bar> < 2 ^ 53" and le: "x \<le> of_int i"
  shows "double x \<le> of_int i"
proof -
  from i have "\<bar>- i\<bar> < 2 ^ 53" by simp
  moreover from le have "of_int (- i) \<le> - x" by simp
  ultimately have "of_int (- i) \<le> double (- x)" by (rule double_lower)
  then show ?thesis by (simp add: double_minus)
qed

lemma double_keepsIntegerBounds: "keepsIntegerBounds double"
  unfolding keepsIntegerBounds_def using double_lower double_upper by blast

lemma exact_keepsIntegerBounds: "keepsIntegerBounds exact"
  by (simp add: keepsIntegerBounds_def exact_def)

lemma monotone_keepsIntegerBounds:
  assumes mono: "\<forall>x y. x \<le> y \<longrightarrow> fl x \<le> fl y"
    and ints: "\<forall>i. \<bar>i\<bar> < 2 ^ 53 \<longrightarrow> fl (of_int i) = of_int i"
  shows "keepsIntegerBounds fl"
  unfolding keepsIntegerBounds_def
proof (intro allI impI conjI)
  fix i :: int and x :: real
  assume i: "\<bar>i\<bar> < 2 ^ 53"
  with ints have k: "fl (of_int i) = of_int i" by simp
  show "of_int i \<le> fl x" if "of_int i \<le> x"
  proof -
    from mono that have "fl (of_int i) \<le> fl x" by blast
    with k show ?thesis by simp
  qed
  show "fl x \<le> of_int i" if "x \<le> of_int i"
  proof -
    from mono that have "fl x \<le> fl (of_int i)" by blast
    with k show ?thesis by simp
  qed
qed

text \<open>
  \<open>Math.round\<close> of a sum that was rounded by such a rounding is within 1 of the sum of
  the integer and the rounded summand.
\<close>

lemma round_of_rounded_sum:
  assumes fl: "keepsIntegerBounds fl"
    and range: "\<bar>c + \<lfloor>p + 1 / 2\<rfloor>\<bar> + 1 < 2 ^ 53"
  shows "\<bar>\<lfloor>fl (of_int c + p) + 1 / 2\<rfloor> - (c + \<lfloor>p + 1 / 2\<rfloor>)\<bar> \<le> 1"
proof -
  let ?n = "\<lfloor>p + 1 / 2\<rfloor>"
  have n: "of_int ?n \<le> p + 1 / 2" "p + 1 / 2 < of_int ?n + 1" by linarith+
  from range have lo: "\<bar>c + ?n - 1\<bar> < 2 ^ 53" and hi: "\<bar>c + ?n + 1\<bar> < 2 ^ 53" by linarith+
  have "real_of_int (c + ?n - 1) = of_int c + of_int ?n - 1" by simp
  with n have "of_int (c + ?n - 1) \<le> of_int c + p" by linarith
  with fl lo have l: "of_int (c + ?n - 1) \<le> fl (of_int c + p)"
    unfolding keepsIntegerBounds_def by blast
  have "real_of_int (c + ?n + 1) = of_int c + of_int ?n + 1" by simp
  with n have "of_int c + p \<le> of_int (c + ?n + 1)" by linarith
  with fl hi have u: "fl (of_int c + p) \<le> of_int (c + ?n + 1)"
    unfolding keepsIntegerBounds_def by blast
  from l have "of_int (c + ?n - 1) \<le> fl (of_int c + p) + 1 / 2" by simp
  then have a: "c + ?n - 1 \<le> \<lfloor>fl (of_int c + p) + 1 / 2\<rfloor>" by (simp only: le_floor_iff)
  from u have "fl (of_int c + p) + 1 / 2 < of_int (c + ?n + 1) + 1" by simp
  then have "\<lfloor>fl (of_int c + p) + 1 / 2\<rfloor> < c + ?n + 1 + 1"
    by (simp only: floor_less_iff of_int_add of_int_1)
  with a show ?thesis by simp
qed

section \<open>Properties of getGrowthFactors\<close>

lemma getGrowthFactors_unlisted:
  assumes "s \<notin> fst ` set factors" and "s \<notin> set objectPrototypeNames"
  shows "getGrowthFactors (Some s) = Row defaultFactors"
proof -
  from assms(1) have "map_of factors s = None"
    by (simp add: map_of_eq_None_iff)
  with assms(2) show ?thesis
    by (simp add: getGrowthFactors_def propertyKey_def)
qed

text \<open>
  C1 (as the source has it). The five labels of the table are those of the source:
  \<open>B2B Manufacturing\<close>, \<open>Penjualan Langsung (B2C)\<close>, \<open>Layanan Berlangganan\<close>,
  \<open>Waralaba (Franchise)\<close> and \<open>Produksi (B2B)\<close>; each is mapped to its row. For
  \<open>null\<close>, and for every string that is neither one of the five labels nor a name
  defined by \<open>Object.prototype\<close>, the default row \<open>{0.08, 1.20}\<close> is returned.
\<close>

theorem getGrowthFactors_table:
  "getGrowthFactors (Some ''B2B Manufacturing'')
      = Row \<lparr>monthlyGrowth = 8 / 100, maxCapacity = 120 / 100\<rparr>
   \<and> getGrowthFactors (Some ''Penjualan Langsung (B2C)'')
      = Row \<lparr>monthlyGrowth = 12 / 100, maxCapacity = 150 / 100\<rparr>
   \<and> getGrowthFactors (Some ''Layanan Berlangganan'')
      = Row \<lparr>monthlyGrowth = 5 / 100, maxCapacity = 110 / 100\<rparr>
   \<and> getGrowthFactors (Some ''Waralaba (Franchise)'')
      = Row \<lparr>monthlyGrowth = 6 / 100, maxCapacity = 130 / 100\<rparr>
   \<and> getGrowthFactors (Some ''Produksi (B2B)'')
      = Row \<lparr>monthlyGrowth = 7 / 100, maxCapacity = 115 / 100\<rparr>
   \<and> getGrowthFactors None = Row \<lparr>monthlyGrowth = 8 / 100, maxCapacity = 120 / 100\<rparr>
   \<and> (\<forall>s. s \<notin> fst ` set factors \<and> s \<notin> set objectPrototypeNames \<longrightarrow>
          getGrowthFactors (Some s)
            = Row \<lparr>monthlyGrowth = 8 / 100, maxCapacity = 120 / 100\<rparr>)"
proof -
  have rows: "getGrowthFactors (Some ''B2B Manufacturing'')
      = Row \<lparr>monthlyGrowth = 8 / 100, maxCapacity = 120 / 100\<rparr>"
    "getGrowthFactors (Some ''Penjualan Langsung (B2C)'')
      = Row \<lparr>monthlyGrowth = 12 / 100, maxCapacity = 150 / 100\<rparr>"
    "getGrowthFactors (Some ''Layanan Berlangganan'')
      = Row \<lparr>monthlyGrowth = 5 / 100, maxCapacity = 110 / 100\<rparr>"
    "getGrowthFactors (Some ''Waralaba (Franchise)'')
      = Row \<lparr>monthlyGrowth = 6 / 100, maxCapacity = 130 / 100\<rparr>"
    "getGrowthFactors (Some ''Produksi (B2B)'')
      = Row \<lparr>monthlyGrowth = 7 / 100, maxCapacity = 115 / 100\<rparr>"
    by (simp_all add: getGrowthFactors_def propertyKey_def factors_def)
  have null: "getGrowthFactors None = Row \<lparr>monthlyGrowth = 8 / 100, maxCapacity = 120 / 100\<rparr>"
    by (simp add: getGrowthFactors_def propertyKey_def factors_def objectPrototypeNames_def
        defaultFactors_def)
  have other: "\<forall>s. s \<notin> fst ` set factors \<and> s \<notin> set objectPrototypeNames \<longrightarrow>
      getGrowthFactors (Some s) = Row \<lparr>monthlyGrowth = 8 / 100, maxCapacity = 120 / 100\<rparr>"
    using getGrowthFactors_unlisted by (simp add: defaultFactors_def)
  from rows null other show ?thesis by blast
qed

theorem getGrowthFactors_table_witness:
  "''Retail'' \<notin> fst ` set factors \<and> ''Retail'' \<notin> set objectPrototypeNames
   \<and> getGrowthFactors (Some ''Retail'')
       = Row \<lparr>monthlyGrowth = 8 / 100, maxCapacity = 120 / 100\<rparr>"
proof -
  have h: "''Retail'' \<notin> fst ` set factors \<and> ''Retail'' \<notin> set objectPrototypeNames"
    by (simp add: factors_def objectPrototypeNames_def)
  with getGrowthFactors_table show ?thesis by blast
qed

text \<open>
  The label \<open>Direct-to-consumer sales\<close> is not a key of the source's table: it gets the
  default row, not \<open>{0.12, 1.50}\<close>.
\<close>

theorem getGrowthFactors_direct_to_consumer:
  "getGrowthFactors (Some ''Direct-to-consumer sales'')
     \<noteq> Row \<lparr>monthlyGrowth = 12 / 100, maxCapacity = 150 / 100\<rparr>"
  by (simp add: getGrowthFactors_def propertyKey_def factors_def objectPrototypeNames_def
      defaultFactors_def)

section \<open>The loop of the generator\<close>

lemma monthLoop_funpow:
  "monthLoop fl inp gf rnd s = (monthBody fl inp gf rnd ^^ nat (timeframe inp + 1 - loop_month s)) s"
proof (induction fl inp gf rnd s rule: monthLoop.induct)
  case (1 fl inp gf rnd s)
  show ?case
  proof (cases "loop_month s \<le> timeframe inp")
    case True
    have m: "loop_month (monthBody fl inp gf rnd s) = loop_month s + 1"
      by (simp add: monthBody_def)
    from True have n: "nat (timeframe inp + 1 - loop_month s)
        = Suc (nat (timeframe inp + 1 - (loop_month s + 1)))"
      by simp
    from True have "monthLoop fl inp gf rnd s = monthLoop fl inp gf rnd (monthBody fl inp gf rnd s)"
      by (subst monthLoop.simps) simp
    also have "\<dots> = (monthBody fl inp gf rnd ^^ nat (timeframe inp + 1 - (loop_month s + 1)))
        (monthBody fl inp gf rnd s)"
      using "1.IH" [OF True] by (simp only: m)
    also have "\<dots> = (monthBody fl inp gf rnd ^^ nat (timeframe inp + 1 - loop_month s)) s"
      by (simp only: n funpow_Suc_right o_apply)
    finally show ?thesis .
  next
    case False
    then show ?thesis by (subst monthLoop.simps) simp
  qed
qed

lemma stateAfter_0: "stateAfter fl inp gf rnd 0 = initialState fl inp"
  by (simp add: stateAfter_def)

lemma stateAfter_Suc:
  "stateAfter fl inp gf rnd (Suc k) = monthBody fl inp gf rnd (stateAfter fl inp gf rnd k)"
  by (simp add: stateAfter_def)

lemma generate_stateAfter:
  "generateDynamicMonthlyData fl inp rnd =
     monthlyData (stateAfter fl inp (getGrowthFactors (business_model inp)) rnd (nat (timeframe inp)))"
  by (simp add: generateDynamicMonthlyData_def monthLoop_funpow stateAfter_def initialState_def)

lemma loop_month_stateAfter: "loop_month (stateAfter fl inp gf rnd k) = 1 + int k"
  by (induction k) (simp_all add: stateAfter_0 stateAfter_Suc initialState_def monthBody_def)

lemma monthlyData_stateAfter:
  "monthlyData (stateAfter fl inp gf rnd k) =
     map (\<lambda>j. newPoint fl inp gf rnd (stateAfter fl inp gf rnd j)) [0..<k]"
  by (induction k) (simp_all add: stateAfter_0 stateAfter_Suc initialState_def monthBody_def)

lemma length_monthlyData_stateAfter: "length (monthlyData (stateAfter fl inp gf rnd k)) = k"
  by (simp add: monthlyData_stateAfter)

lemma generate_nth:
  assumes "k < length (generateDynamicMonthlyData fl inp rnd)"
  shows "generateDynamicMonthlyData fl inp rnd ! k =
    newPoint fl inp (getGrowthFactors (business_model inp)) rnd
      (stateAfter fl inp (getGrowthFactors (business_model inp)) rnd k)"
  using assms by (simp add: generate_stateAfter monthlyData_stateAfter)

lemma last_monthlyData_stateAfter:
  "last (monthlyData (stateAfter fl inp gf rnd (Suc k))) = newPoint fl inp gf rnd (stateAfter fl inp gf rnd k)"
  by (simp add: monthlyData_stateAfter)

lemma month_newPoint: "month (newPoint fl inp gf rnd s) = loop_month s"
  by (simp add: newPoint_def Let_def)

lemma upto_from_1: "map (\<lambda>j. 1 + int j) [0..<n] = [1..int n]"
proof (induction n)
  case 0
  show ?case by simp
next
  case (Suc n)
  have "[1..int (Suc n)] = [1..int n] @ [1 + int n]"
    using upto_rec2 [of 1 "int (Suc n)"] by (simp add: add.commute)
  with Suc show ?case by simp
qed

lemma length_generate: "length (generateDynamicMonthlyData fl inp rnd) = nat (timeframe inp)"
  by (simp add: generate_stateAfter length_monthlyData_stateAfter)

text \<open>The series of the example inputs, by evaluation.\<close>

lemmas generator_defs =
  generateDynamicMonthlyData_def getGrowthFactors_def propertyKey_def factors_def
  objectPrototypeNames_def defaultFactors_def initialState_def monthBody_def
  newPoint_def grownRevenue_def drawsAfterGrowth_def variedCost_def adjustedRevenue_def
  monthProfit_def runningProfit_def previousRevenue_def variance_def
  getSeasonalMultiplier_def seasonalPatterns_def js_rem_def js_or_def js_min_def js_sub_def
  Let_def

lemmas rounded_defs = fl_add_def fl_sub_def fl_mul_def fl_div_def

lemma sample_series: "generateDynamicMonthlyData exact sampleVenture noVariance =
  [\<lparr>month = 1, revenue = Fin 10800, cost = Fin 12000, profit = Fin (- 1200),
     cumulativeProfit = Fin (- 101200), revenueGrowth = Fin 0, capacityUtilization = Fin 54\<rparr>,
   \<lparr>month = 2, revenue = Fin 12312, cost = Fin 12000, profit = Fin 312,
     cumulativeProfit = Fin (- 100888), revenueGrowth = Fin 14, capacityUtilization = Fin 62\<rparr>,
   \<lparr>month = 3, revenue = Fin 13997, cost = Fin 12000, profit = Fin 1997,
     cumulativeProfit = Fin (- 98891), revenueGrowth = Fin 14, capacityUtilization = Fin 70\<rparr>]"
  by (simp add: sampleVenture_def noVariance_def generator_defs exact_def monthLoop.simps)

lemma default_row:
  "getGrowthFactors None = Row defaultFactors"
  "monthlyGrowth defaultFactors = 8 / 100" "maxCapacity defaultFactors = 12 / 10"
  by (simp_all add: getGrowthFactors_def propertyKey_def factors_def objectPrototypeNames_def
      defaultFactors_def)

section \<open>Properties of the generated series\<close>

text \<open>
  C8. The generator returns exactly \<open>timeframe\<close> data points (none when the timeframe
  is not positive), and their \<open>month\<close> fields are \<open>1, 2, \<dots>, timeframe\<close> in this
  order, hence strictly increasing from 1. This holds for every input and every sequence
  of draws.
\<close>

theorem generate_months:
  "length (generateDynamicMonthlyData fl inp rnd) = nat (timeframe inp)
   \<and> map month (generateDynamicMonthlyData fl inp rnd) = [1..timeframe inp]
   \<and> sorted_wrt (<) (map month (generateDynamicMonthlyData fl inp rnd))"
proof -
  let ?n = "nat (timeframe inp)"
  have "map month (generateDynamicMonthlyData fl inp rnd) = map (\<lambda>j. 1 + int j) [0..<?n]"
    by (simp add: generate_stateAfter monthlyData_stateAfter month_newPoint
        loop_month_stateAfter o_def)
  also have "\<dots> = [1..int ?n]" by (rule upto_from_1)
  also have "\<dots> = [1..timeframe inp]" by (cases "0 \<le> timeframe inp") simp_all
  finally have months: "map month (generateDynamicMonthlyData fl inp rnd) = [1..timeframe inp]" .
  have "sorted_wrt (<) [1..timeframe inp]"
    by (rule sorted_wrt_upto)
  with months length_generate [of fl inp rnd] show ?thesis by simp
qed

lemma js_round_add_round: "js_round (js_add (js_round a) p) = js_add (js_round a) (js_round p)"
proof (cases a)
  case (Fin x)
  show ?thesis
  proof (cases p)
    case (Fin y)
    have "\<lfloor>of_int \<lfloor>x + 1 / 2\<rfloor> + y + 1 / 2\<rfloor> = \<lfloor>x + 1 / 2\<rfloor> + \<lfloor>y + 1 / 2\<rfloor>"
      by (simp add: add.assoc)
    with \<open>a = Fin x\<close> Fin show ?thesis by simp
  qed (simp_all add: \<open>a = Fin x\<close>)
qed (cases p; simp)+

lemma js_round_sub_int:
  "js_round (js_sub p (Fin (of_int v))) = js_sub (js_round p) (Fin (of_int v))"
proof (cases p)
  case (Fin y)
  have "\<lfloor>y + - of_int v + 1 / 2\<rfloor> = \<lfloor>y + 1 / 2\<rfloor> - v"
  proof -
    have "y + - of_int v + 1 / 2 = (y + 1 / 2) - of_int v" by simp
    then show ?thesis by (simp only: floor_diff_of_int)
  qed
  with Fin show ?thesis by (simp add: js_sub_def)
qed (simp_all add: js_sub_def)

lemma generate_nth_profit:
  assumes "k < length (generateDynamicMonthlyData fl inp rnd)"
  shows "profit (generateDynamicMonthlyData fl inp rnd ! k) = js_round (profitAt fl inp rnd k)"
  using assms by (simp add: generate_nth newPoint_def profitAt_def Let_def)

lemma generate_nth_cumulative_first:
  assumes "generateDynamicMonthlyData fl inp rnd \<noteq> []"
  shows "cumulativeProfit (generateDynamicMonthlyData fl inp rnd ! 0)
    = js_round (fl_sub fl (profitAt fl inp rnd 0) (Fin (of_int (initial_investment inp))))"
proof -
  from assms have "0 < length (generateDynamicMonthlyData fl inp rnd)" by simp
  then show ?thesis
    by (simp add: generate_nth newPoint_def profitAt_def Let_def runningProfit_def
        stateAfter_0 initialState_def)
qed

lemma generate_nth_cumulative_later:
  assumes "Suc j < length (generateDynamicMonthlyData fl inp rnd)"
  shows "cumulativeProfit (generateDynamicMonthlyData fl inp rnd ! Suc j)
    = js_round (fl_add fl (cumulativeProfit (generateDynamicMonthlyData fl inp rnd ! j))
                  (profitAt fl inp rnd (Suc j)))"
proof -
  let ?gf = "getGrowthFactors (business_model inp)"
  from assms have j: "j < length (generateDynamicMonthlyData fl inp rnd)" by simp
  have "length (monthlyData (stateAfter fl inp ?gf rnd (Suc j))) > 0"
    by (simp add: length_monthlyData_stateAfter)
  then have "runningProfit fl inp ?gf rnd (stateAfter fl inp ?gf rnd (Suc j))
     = fl_add fl (cumulativeProfit (last (monthlyData (stateAfter fl inp ?gf rnd (Suc j)))))
                 (monthProfit fl inp ?gf rnd (stateAfter fl inp ?gf rnd (Suc j)))"
    unfolding runningProfit_def by (rule if_P)
  then have "runningProfit fl inp ?gf rnd (stateAfter fl inp ?gf rnd (Suc j))
     = fl_add fl (cumulativeProfit (generateDynamicMonthlyData fl inp rnd ! j))
                 (profitAt fl inp rnd (Suc j))"
    by (simp only: last_monthlyData_stateAfter generate_nth [OF j] profitAt_def Let_def)
  then show ?thesis
    by (simp add: generate_nth [OF assms] newPoint_def Let_def)
qed

lemma stored_is_rounded:
  assumes "k < length (generateDynamicMonthlyData fl inp rnd)"
  shows "\<exists>q. cumulativeProfit (generateDynamicMonthlyData fl inp rnd ! k) = js_round q"
proof (cases k)
  case 0
  from assms have "generateDynamicMonthlyData fl inp rnd \<noteq> []" by auto
  from generate_nth_cumulative_first [OF this] 0 show ?thesis by blast
next
  case (Suc i)
  with assms have "Suc i < length (generateDynamicMonthlyData fl inp rnd)" by simp
  from generate_nth_cumulative_later [OF this] Suc show ?thesis by blast
qed

lemma js_round_Fin:
  assumes "js_round q = Fin c"
  obtains x where "q = Fin x" and "c = of_int \<lfloor>x + 1 / 2\<rfloor>"
  using assms by (cases q) auto

text \<open>
  The drift of one step: the rounded total differs by at most 1 from the sum of the
  stored summands, as long as that sum stays below \<open>2^53\<close>.
\<close>

lemma drift_first:
  assumes fl: "keepsIntegerBounds fl" and b: "js_round p = Fin b"
    and range: "\<bar>b - of_int v\<bar> + 1 < 2 ^ 53"
  shows "\<exists>a. js_round (fl_sub fl p (Fin (of_int v))) = Fin a \<and> \<bar>a - (b - of_int v)\<bar> \<le> 1"
proof -
  from b obtain x where x: "p = Fin x" "b = of_int \<lfloor>x + 1 / 2\<rfloor>" by (rule js_round_Fin)
  let ?n = "\<lfloor>x + 1 / 2\<rfloor>"
  let ?a = "\<lfloor>fl (of_int (- v) + x) + 1 / 2\<rfloor>"
  from range x(2) have "real_of_int (\<bar>- v + ?n\<bar> + 1) < real_of_int (2 ^ 53)" by simp
  then have "\<bar>- v + ?n\<bar> + 1 < 2 ^ 53" by (simp only: of_int_less_iff)
  from round_of_rounded_sum [OF fl this] have "\<bar>?a - (- v + ?n)\<bar> \<le> 1" .
  then have "real_of_int \<bar>?a - (- v + ?n)\<bar> \<le> real_of_int 1" by (simp only: of_int_le_iff)
  then have d: "\<bar>of_int ?a - (b - of_int v)\<bar> \<le> (1::real)" by (simp add: x(2))
  have "x + - real_of_int v = of_int (- v) + x" by simp
  then have "js_round (fl_sub fl p (Fin (of_int v))) = Fin (of_int ?a)"
    by (simp add: fl_sub_def js_sub_def x(1))
  with d show ?thesis by blast
qed

lemma drift_later:
  assumes fl: "keepsIntegerBounds fl" and b: "js_round p = Fin b" and c: "js_round q = Fin c"
    and range: "\<bar>c + b\<bar> + 1 < 2 ^ 53"
  shows "\<exists>a. js_round (fl_add fl (Fin c) p) = Fin a \<and> \<bar>a - (c + b)\<bar> \<le> 1"
proof -
  from b obtain x where x: "p = Fin x" "b = of_int \<lfloor>x + 1 / 2\<rfloor>" by (rule js_round_Fin)
  from c obtain y where y: "q = Fin y" "c = of_int \<lfloor>y + 1 / 2\<rfloor>" by (rule js_round_Fin)
  let ?n = "\<lfloor>x + 1 / 2\<rfloor>"
  let ?c = "\<lfloor>y + 1 / 2\<rfloor>"
  let ?a = "\<lfloor>fl (of_int ?c + x) + 1 / 2\<rfloor>"
  from range x(2) y(2) have "real_of_int (\<bar>?c + ?n\<bar> + 1) < real_of_int (2 ^ 53)" by simp
  then have "\<bar>?c + ?n\<bar> + 1 < 2 ^ 53" by (simp only: of_int_less_iff)
  from round_of_rounded_sum [OF fl this] have "\<bar>?a - (?c + ?n)\<bar> \<le> 1" .
  then have "real_of_int \<bar>?a - (?c + ?n)\<bar> \<le> real_of_int 1" by (simp only: of_int_le_iff)
  then have d: "\<bar>of_int ?a - (c + b)\<bar> \<le> (1::real)" by (simp add: x(2) y(2))
  have "js_round (fl_add fl (Fin c) p) = Fin (of_int ?a)"
    by (simp add: fl_add_def x(1) y(2))
  with d show ?thesis by blast
qed

text \<open>
  When the business model resolves to a row of growth factors, the revenue state, the
  profit of every month and the stored profit and cumulative profit are finite numbers.
\<close>

lemma js_min_Fin: "\<exists>z. js_min (Fin x) (Fin y) = Fin z"
  by (simp add: js_min_def)

lemma grownRevenue_finite:
  assumes "currentRevenue s = Fin x"
  shows "\<exists>y. grownRevenue fl inp (Row r) rnd s = Fin y"
  using assms by (simp add: grownRevenue_def Let_def fl_mul_def fl_add_def js_min_Fin)

lemma currentRevenue_finite: "\<exists>x. currentRevenue (stateAfter fl inp (Row r) rnd k) = Fin x"
proof (induction k)
  case 0
  show ?case by (simp add: stateAfter_0 initialState_def fl_mul_def)
next
  case (Suc k)
  then obtain x where "currentRevenue (stateAfter fl inp (Row r) rnd k) = Fin x" ..
  from grownRevenue_finite [OF this] show ?case by (simp add: stateAfter_Suc monthBody_def)
qed

lemma getSeasonalMultiplier_finite: "\<exists>v. getSeasonalMultiplier fl m = Fin v"
  by (simp add: getSeasonalMultiplier_def js_or_def split: option.splits)

lemma profitAt_finite:
  assumes "getGrowthFactors (business_model inp) = Row r"
  shows "\<exists>p. profitAt fl inp rnd k = Fin p"
proof -
  from currentRevenue_finite obtain x where
    "currentRevenue (stateAfter fl inp (Row r) rnd k) = Fin x" ..
  from grownRevenue_finite [OF this] obtain y where
    y: "grownRevenue fl inp (Row r) rnd (stateAfter fl inp (Row r) rnd k) = Fin y" ..
  from getSeasonalMultiplier_finite obtain v where
    v: "getSeasonalMultiplier fl (loop_month (stateAfter fl inp (Row r) rnd k)) = Fin v" ..
  show ?thesis
    by (simp add: profitAt_def assms monthProfit_def adjustedRevenue_def variedCost_def y v
        fl_mul_def fl_sub_def js_sub_def Let_def)
qed

lemma stored_profit_finite:
  assumes row: "getGrowthFactors (business_model inp) = Row r"
    and k: "k < length (generateDynamicMonthlyData fl inp rnd)"
  shows "\<exists>b c. profit (generateDynamicMonthlyData fl inp rnd ! k) = Fin b
    \<and> cumulativeProfit (generateDynamicMonthlyData fl inp rnd ! k) = Fin c"
  using k
proof (induction k)
  case 0
  then have ne: "generateDynamicMonthlyData fl inp rnd \<noteq> []" by auto
  from profitAt_finite [OF row] obtain p where p: "profitAt fl inp rnd 0 = Fin p" ..
  from generate_nth_profit [OF 0] generate_nth_cumulative_first [OF ne] show ?case
    by (simp add: p fl_sub_def js_sub_def)
next
  case (Suc j)
  then obtain c where c: "cumulativeProfit (generateDynamicMonthlyData fl inp rnd ! j) = Fin c"
    by auto
  from profitAt_finite [OF row] obtain p where p: "profitAt fl inp rnd (Suc j) = Fin p" ..
  from generate_nth_profit [OF Suc.prems] generate_nth_cumulative_later [OF Suc.prems]
  show ?case by (simp add: p c fl_add_def)
qed

text \<open>
  C3 (as the source has it). With \<open>p\<^sub>k\<close> the profit of a month before it is rounded, the
  stored profit is \<open>round(p\<^sub>k)\<close>, the stored cumulative profit of month 1 is
  \<open>round(p\<^sub>1 - initialInvestment)\<close> and that of every later month is
  \<open>round(cumulativeProfit\<^sub>k\<^sub>-\<^sub>1 + p\<^sub>k)\<close>, built on the stored total of the month before;
  this holds for every rounding. In exact arithmetic these are the stored profit of
  month 1 minus the initial investment, and the stored total of the month before plus
  the stored profit of the month. For a rounding that never crosses an integer below
  \<open>2^53\<close>, as \<open>double\<close> is, and stored amounts below \<open>2^53\<close>, the stored cumulative profit
  differs from these by at most 1 in every month. The stored profit and cumulative profit
  are finite numbers whenever the business model resolves to a row of growth factors.
\<close>

theorem cumulativeProfit_recurrence:
  "(generateDynamicMonthlyData fl inp rnd \<noteq> [] \<longrightarrow>
      profit (generateDynamicMonthlyData fl inp rnd ! 0) = js_round (profitAt fl inp rnd 0)
      \<and> cumulativeProfit (generateDynamicMonthlyData fl inp rnd ! 0)
        = js_round (fl_sub fl (profitAt fl inp rnd 0) (Fin (of_int (initial_investment inp)))))
   \<and> (\<forall>k. 0 < k \<and> k < length (generateDynamicMonthlyData fl inp rnd) \<longrightarrow>
        profit (generateDynamicMonthlyData fl inp rnd ! k) = js_round (profitAt fl inp rnd k)
        \<and> cumulativeProfit (generateDynamicMonthlyData fl inp rnd ! k)
          = js_round (fl_add fl (cumulativeProfit (generateDynamicMonthlyData fl inp rnd ! (k - 1)))
                        (profitAt fl inp rnd k)))
   \<and> (generateDynamicMonthlyData exact inp rnd \<noteq> [] \<longrightarrow>
      cumulativeProfit (generateDynamicMonthlyData exact inp rnd ! 0)
        = js_sub (profit (generateDynamicMonthlyData exact inp rnd ! 0))
                 (Fin (of_int (initial_investment inp))))
   \<and> (\<forall>k. 0 < k \<and> k < length (generateDynamicMonthlyData exact inp rnd) \<longrightarrow>
        cumulativeProfit (generateDynamicMonthlyData exact inp rnd ! k)
          = js_add (cumulativeProfit (generateDynamicMonthlyData exact inp rnd ! (k - 1)))
                   (profit (generateDynamicMonthlyData exact inp rnd ! k)))
   \<and> (\<forall>b. keepsIntegerBounds fl \<and> generateDynamicMonthlyData fl inp rnd \<noteq> []
        \<and> profit (generateDynamicMonthlyData fl inp rnd ! 0) = Fin b
        \<and> \<bar>b - of_int (initial_investment inp)\<bar> + 1 < 2 ^ 53 \<longrightarrow>
        (\<exists>a. cumulativeProfit (generateDynamicMonthlyData fl inp rnd ! 0) = Fin a
           \<and> \<bar>a - (b - of_int (initial_investment inp))\<bar> \<le> 1))
   \<and> (\<forall>k b c. keepsIntegerBounds fl
        \<and> 0 < k \<and> k < length (generateDynamicMonthlyData fl inp rnd)
        \<and> profit (generateDynamicMonthlyData fl inp rnd ! k) = Fin b
        \<and> cumulativeProfit (generateDynamicMonthlyData fl inp rnd ! (k - 1)) = Fin c
        \<and> \<bar>c + b\<bar> + 1 < 2 ^ 53 \<longrightarrow>
        (\<exists>a. cumulativeProfit (generateDynamicMonthlyData fl inp rnd ! k) = Fin a
           \<and> \<bar>a - (c + b)\<bar> \<le> 1))
   \<and> (\<forall>k r. getGrowthFactors (business_model inp) = Row r
        \<and> k < length (generateDynamicMonthlyData fl inp rnd) \<longrightarrow>
        (\<exists>b c. profit (generateDynamicMonthlyData fl inp rnd ! k) = Fin b
           \<and> cumulativeProfit (generateDynamicMonthlyData fl inp rnd ! k) = Fin c))"
proof (intro conjI impI allI)
  assume ne: "generateDynamicMonthlyData fl inp rnd \<noteq> []"
  then show "profit (generateDynamicMonthlyData fl inp rnd ! 0) = js_round (profitAt fl inp rnd 0)"
    by (intro generate_nth_profit) simp
  from ne show "cumulativeProfit (generateDynamicMonthlyData fl inp rnd ! 0)
        = js_round (fl_sub fl (profitAt fl inp rnd 0) (Fin (of_int (initial_investment inp))))"
    by (rule generate_nth_cumulative_first)
next
  fix k
  assume k: "0 < k \<and> k < length (generateDynamicMonthlyData fl inp rnd)"
  then obtain j where j: "k = Suc j" by (cases k) auto
  from k show "profit (generateDynamicMonthlyData fl inp rnd ! k) = js_round (profitAt fl inp rnd k)"
    by (intro generate_nth_profit) simp
  from k j have "Suc j < length (generateDynamicMonthlyData fl inp rnd)" by simp
  then show "cumulativeProfit (generateDynamicMonthlyData fl inp rnd ! k)
          = js_round (fl_add fl (cumulativeProfit (generateDynamicMonthlyData fl inp rnd ! (k - 1)))
                        (profitAt fl inp rnd k))"
    unfolding j diff_Suc_1 by (rule generate_nth_cumulative_later)
next
  let ?ds = "generateDynamicMonthlyData exact inp rnd"
  assume ne: "?ds \<noteq> []"
  then have "0 < length ?ds" by simp
  then have "profit (?ds ! 0) = js_round (profitAt exact inp rnd 0)"
    by (rule generate_nth_profit)
  with generate_nth_cumulative_first [OF ne]
  show "cumulativeProfit (?ds ! 0) = js_sub (profit (?ds ! 0)) (Fin (of_int (initial_investment inp)))"
    by (simp add: js_round_sub_int)
next
  let ?ds = "generateDynamicMonthlyData exact inp rnd"
  fix k
  assume k: "0 < k \<and> k < length ?ds"
  then obtain j where j: "k = Suc j" by (cases k) auto
  from k j have sj: "Suc j < length ?ds" by simp
  then have lt: "j < length ?ds" by simp
  have pk: "profit (?ds ! Suc j) = js_round (profitAt exact inp rnd (Suc j))"
    using sj by (rule generate_nth_profit)
  from stored_is_rounded [OF lt] obtain a where a: "cumulativeProfit (?ds ! j) = js_round a" ..
  from generate_nth_cumulative_later [OF sj]
  have "cumulativeProfit (?ds ! Suc j)
      = js_round (js_add (js_round a) (profitAt exact inp rnd (Suc j)))"
    by (simp add: a)
  also have "\<dots> = js_add (js_round a) (js_round (profitAt exact inp rnd (Suc j)))"
    by (rule js_round_add_round)
  finally show "cumulativeProfit (?ds ! k)
      = js_add (cumulativeProfit (?ds ! (k - 1))) (profit (?ds ! k))"
    unfolding j diff_Suc_1 by (simp only: a pk)
next
  let ?ds = "generateDynamicMonthlyData fl inp rnd"
  fix b
  assume h: "keepsIntegerBounds fl \<and> ?ds \<noteq> [] \<and> profit (?ds ! 0) = Fin b
        \<and> \<bar>b - of_int (initial_investment inp)\<bar> + 1 < 2 ^ 53"
  then have ne: "?ds \<noteq> []" and fl: "keepsIntegerBounds fl"
    and range: "\<bar>b - of_int (initial_investment inp)\<bar> + 1 < 2 ^ 53" by simp_all
  from ne have "0 < length ?ds" by simp
  from generate_nth_profit [OF this] h have b: "js_round (profitAt fl inp rnd 0) = Fin b" by simp
  from drift_first [OF fl b range] generate_nth_cumulative_first [OF ne]
  show "\<exists>a. cumulativeProfit (?ds ! 0) = Fin a
      \<and> \<bar>a - (b - of_int (initial_investment inp))\<bar> \<le> 1"
    by simp
next
  let ?ds = "generateDynamicMonthlyData fl inp rnd"
  fix k b c
  assume h: "keepsIntegerBounds fl \<and> 0 < k \<and> k < length ?ds \<and> profit (?ds ! k) = Fin b
        \<and> cumulativeProfit (?ds ! (k - 1)) = Fin c \<and> \<bar>c + b\<bar> + 1 < 2 ^ 53"
  then have fl: "keepsIntegerBounds fl" and range: "\<bar>c + b\<bar> + 1 < 2 ^ 53" by simp_all
  from h obtain j where j: "k = Suc j" by (cases k) auto
  from h j have sj: "Suc j < length ?ds" by simp
  then have lt: "j < length ?ds" by simp
  from h j have pb: "profit (?ds ! Suc j) = Fin b" and pc: "cumulativeProfit (?ds ! j) = Fin c"
    by simp_all
  from generate_nth_profit [OF sj] pb have b: "js_round (profitAt fl inp rnd (Suc j)) = Fin b"
    by simp
  from stored_is_rounded [OF lt] pc obtain q where q: "js_round q = Fin c" by auto
  from drift_later [OF fl b q range] generate_nth_cumulative_later [OF sj]
  show "\<exists>a. cumulativeProfit (?ds ! k) = Fin a \<and> \<bar>a - (c + b)\<bar> \<le> 1"
    unfolding j diff_Suc_1 by (simp add: pc)
next
  fix k r
  assume "getGrowthFactors (business_model inp) = Row r
      \<and> k < length (generateDynamicMonthlyData fl inp rnd)"
  then show "\<exists>b c. profit (generateDynamicMonthlyData fl inp rnd ! k) = Fin b
      \<and> cumulativeProfit (generateDynamicMonthlyData fl inp rnd ! k) = Fin c"
    by (intro stored_profit_finite) simp_all
qed

text \<open>
  In double arithmetic, with the draws \<open>2249923313840516 / 2^52\<close>, the cost of month 1 is
  11999.500000000002 and the profit \<open>10800 - cost\<close> is -1199.5000000000018, stored as
  -1200. The sum \<open>profit - 100000\<close> is rounded to the double -101199.5, which
  \<open>Math.round\<close> takes to -101199: the stored cumulative profit is not
  \<open>-1200 - 100000 = -101200\<close>. In month 2 the profit is about 312.46, stored as 312, and
  the stored cumulative profit is \<open>-101199 + 312 = -100887\<close>.
\<close>

lemma boundary_variance: "variance double (boundaryDraw n) = 4503411977386023 / 4503599627370496"
  by (simp add: variance_def boundaryDraw_def double_literals double_eval)

lemma boundary_cost:
  "fl_mul double (Fin 12000) (Fin (4503411977386023 / 4503599627370496))
     = Fin (6596794888749057 / 549755813888)"
  by (simp add: rounded_defs double_eval)

lemma first_revenue:
  "fl_mul double (Fin 20000) (Fin (5404319552844595 / 9007199254740992)) = Fin 12000"
  by (simp add: rounded_defs double_eval)

lemma boundary_first_profit:
  assumes "expected_monthly_revenue inp = 20000" "monthly_operating_cost inp = 12000"
    "business_model inp = None"
  shows "profitAt double inp boundaryDraw 0 = Fin (- (659432098758657 / 549755813888))"
proof -
  have a: "fl_mul double (Fin 12000) (Fin (8106479329266893 / 9007199254740992)) = Fin 10800"
    by (simp add: rounded_defs double_eval)
  have p: "fl_sub double (Fin 10800) (Fin (6596794888749057 / 549755813888))
      = Fin (- (659432098758657 / 549755813888))"
    by (simp add: rounded_defs js_sub_def double_eval)
  show ?thesis
    by (simp add: profitAt_def monthProfit_def adjustedRevenue_def variedCost_def
        grownRevenue_def drawsAfterGrowth_def stateAfter_0 initialState_def
        getSeasonalMultiplier_def seasonalPatterns_def js_rem_def js_or_def Let_def
        assms default_row double_literals boundary_variance boundary_cost first_revenue a p)
qed

lemma boundary_second_profit:
  assumes "expected_monthly_revenue inp = 20000" "monthly_operating_cost inp = 12000"
    "business_model inp = None"
  shows "profitAt double inp boundaryDraw (Suc 0) = Fin (171777801119071 / 549755813888)"
proof -
  have g: "fl_mul double (Fin (5764607523034235 / 72057594037927936))
        (Fin (4503411977386023 / 4503599627370496))
      = Fin (2882183665527055 / 36028797018963968)"
    by (simp add: rounded_defs double_eval)
  have g1: "fl_add double (Fin 1) (Fin (2882183665527055 / 36028797018963968))
      = Fin (2431936292780689 / 2251799813685248)"
    by (simp add: rounded_defs double_eval)
  have c: "fl_mul double (Fin 12000) (Fin (2431936292780689 / 2251799813685248))
      = Fin (7124813357755925 / 549755813888)"
    by (simp add: rounded_defs double_eval)
  have cap: "fl_mul double (Fin 20000) (Fin (5404319552844595 / 4503599627370496)) = Fin 24000"
    by (simp add: rounded_defs double_eval)
  have m: "js_min (Fin (7124813357755925 / 549755813888)) (Fin 24000)
      = Fin (7124813357755925 / 549755813888)"
    by (simp add: js_min_def)
  have a2: "fl_mul double (Fin (7124813357755925 / 549755813888))
        (Fin (4278419646001971 / 4503599627370496))
      = Fin (211517896558379 / 17179869184)"
    by (simp add: rounded_defs double_eval)
  have p: "fl_sub double (Fin (211517896558379 / 17179869184))
        (Fin (6596794888749057 / 549755813888))
      = Fin (171777801119071 / 549755813888)"
    by (simp add: rounded_defs js_sub_def double_eval)
  have cur: "currentRevenue (stateAfter double inp (Row defaultFactors) boundaryDraw (Suc 0))
      = Fin 12000"
    by (simp add: stateAfter_def monthBody_def grownRevenue_def initialState_def assms
        double_literals first_revenue)
  have d: "draws (stateAfter double inp (Row defaultFactors) boundaryDraw (Suc 0)) = 1"
    by (simp add: stateAfter_def monthBody_def drawsAfterGrowth_def initialState_def)
  show ?thesis
    by (simp add: profitAt_def monthProfit_def adjustedRevenue_def variedCost_def
        grownRevenue_def drawsAfterGrowth_def loop_month_stateAfter cur d assms default_row
        getSeasonalMultiplier_def seasonalPatterns_def js_rem_def js_or_def Let_def
        double_literals boundary_variance boundary_cost g g1 c cap m a2 p)
qed

lemma boundary_stored:
  assumes "initial_investment inp = 100000" "expected_monthly_revenue inp = 20000"
    "monthly_operating_cost inp = 12000" "business_model inp = None"
    and "generateDynamicMonthlyData double inp boundaryDraw \<noteq> []"
  shows "profit (generateDynamicMonthlyData double inp boundaryDraw ! 0) = Fin (- 1200)"
    and "cumulativeProfit (generateDynamicMonthlyData double inp boundaryDraw ! 0)
     = Fin (- 101199)"
proof -
  note p = boundary_first_profit [OF assms(2,3,4)]
  have t: "fl_sub double (Fin (- (659432098758657 / 549755813888))) (Fin 100000)
      = Fin (- (202399 / 2))"
    by (simp add: rounded_defs js_sub_def double_eval)
  from assms(5) have "0 < length (generateDynamicMonthlyData double inp boundaryDraw)" by simp
  then show "profit (generateDynamicMonthlyData double inp boundaryDraw ! 0) = Fin (- 1200)"
    by (simp add: generate_nth_profit p)
  from generate_nth_cumulative_first [OF assms(5)]
  show "cumulativeProfit (generateDynamicMonthlyData double inp boundaryDraw ! 0)
     = Fin (- 101199)"
    by (simp add: p t assms(1))
qed

lemma sample_boundary_stored:
  "profit (generateDynamicMonthlyData double sampleVenture boundaryDraw ! 0) = Fin (- 1200)"
  "cumulativeProfit (generateDynamicMonthlyData double sampleVenture boundaryDraw ! 0)
     = Fin (- 101199)"
  "profit (generateDynamicMonthlyData double sampleVenture boundaryDraw ! Suc 0) = Fin 312"
  "cumulativeProfit (generateDynamicMonthlyData double sampleVenture boundaryDraw ! Suc 0)
     = Fin (- 100887)"
proof -
  let ?ds = "generateDynamicMonthlyData double sampleVenture boundaryDraw"
  have f: "initial_investment sampleVenture = 100000"
    "expected_monthly_revenue sampleVenture = 20000"
    "monthly_operating_cost sampleVenture = 12000" "business_model sampleVenture = None"
    by (simp_all add: sampleVenture_def)
  have len: "length ?ds = 3" by (simp add: length_generate sampleVenture_def)
  then have ne: "?ds \<noteq> []" by auto
  from boundary_stored [OF f ne]
  show p0: "profit (?ds ! 0) = Fin (- 1200)" and c0: "cumulativeProfit (?ds ! 0) = Fin (- 101199)"
    by simp_all
  from len have sj: "Suc 0 < length ?ds" by simp
  note p = boundary_second_profit [OF f(2,3,4)]
  have t: "fl_add double (Fin (- 101199)) (Fin (171777801119071 / 549755813888))
      = Fin (- (1733217525266645 / 17179869184))"
    by (simp add: rounded_defs double_eval)
  from sj show "profit (?ds ! Suc 0) = Fin 312"
    by (simp add: generate_nth_profit p)
  from generate_nth_cumulative_later [OF sj]
  show "cumulativeProfit (?ds ! Suc 0) = Fin (- 100887)"
    by (simp add: c0 p t)
qed

theorem cumulativeProfit_recurrence_witness:
  "generateDynamicMonthlyData double sampleVenture boundaryDraw \<noteq> []
   \<and> 0 < (1::nat) \<and> 1 < length (generateDynamicMonthlyData double sampleVenture boundaryDraw)
   \<and> generateDynamicMonthlyData exact sampleVenture boundaryDraw \<noteq> []
   \<and> 1 < length (generateDynamicMonthlyData exact sampleVenture boundaryDraw)
   \<and> keepsIntegerBounds double
   \<and> profit (generateDynamicMonthlyData double sampleVenture boundaryDraw ! 0) = Fin (- 1200)
   \<and> \<bar>- 1200 - of_int (initial_investment sampleVenture)\<bar> + 1 < (2 ^ 53 :: real)
   \<and> profit (generateDynamicMonthlyData double sampleVenture boundaryDraw ! 1) = Fin 312
   \<and> cumulativeProfit (generateDynamicMonthlyData double sampleVenture boundaryDraw ! (1 - 1))
       = Fin (- 101199)
   \<and> \<bar>- 101199 + 312\<bar> + 1 < (2 ^ 53 :: real)
   \<and> cumulativeProfit (generateDynamicMonthlyData double sampleVenture boundaryDraw ! 0)
       = js_round (fl_sub double (profitAt double sampleVenture boundaryDraw 0)
           (Fin (of_int (initial_investment sampleVenture))))
   \<and> cumulativeProfit (generateDynamicMonthlyData double sampleVenture boundaryDraw ! 1)
       = js_round (fl_add double
           (cumulativeProfit (generateDynamicMonthlyData double sampleVenture boundaryDraw ! (1 - 1)))
           (profitAt double sampleVenture boundaryDraw 1))
   \<and> cumulativeProfit (generateDynamicMonthlyData exact sampleVenture boundaryDraw ! 0)
       = js_sub (profit (generateDynamicMonthlyData exact sampleVenture boundaryDraw ! 0))
           (Fin (of_int (initial_investment sampleVenture)))
   \<and> cumulativeProfit (generateDynamicMonthlyData exact sampleVenture boundaryDraw ! 1)
       = js_add (cumulativeProfit (generateDynamicMonthlyData exact sampleVenture boundaryDraw ! (1 - 1)))
           (profit (generateDynamicMonthlyData exact sampleVenture boundaryDraw ! 1))
   \<and> (\<exists>a. cumulativeProfit (generateDynamicMonthlyData double sampleVenture boundaryDraw ! 0) = Fin a
         \<and> \<bar>a - (- 1200 - of_int (initial_investment sampleVenture))\<bar> \<le> 1)
   \<and> (\<exists>a. cumulativeProfit (generateDynamicMonthlyData double sampleVenture boundaryDraw ! 1) = Fin a
         \<and> \<bar>a - (- 101199 + 312)\<bar> \<le> 1)
   \<and> getGrowthFactors (business_model sampleVenture) = Row defaultFactors
   \<and> (\<exists>b c. profit (generateDynamicMonthlyData double sampleVenture boundaryDraw ! 1) = Fin b
         \<and> cumulativeProfit (generateDynamicMonthlyData double sampleVenture boundaryDraw ! 1)
             = Fin c)"
proof -
  let ?ds = "generateDynamicMonthlyData double sampleVenture boundaryDraw"
  let ?es = "generateDynamicMonthlyData exact sampleVenture boundaryDraw"
  have len: "length ?ds = 3" "length ?es = 3"
    by (simp_all add: length_generate sampleVenture_def)
  then have ne: "?ds \<noteq> []" "?es \<noteq> []" by auto
  from len have k: "0 < (1::nat) \<and> 1 < length ?ds" "0 < (1::nat) \<and> 1 < length ?es" by simp_all
  note fl = double_keepsIntegerBounds
  have inv: "initial_investment sampleVenture = 100000" by (simp add: sampleVenture_def)
  have p0: "profit (?ds ! 0) = Fin (- 1200)" by (rule sample_boundary_stored)
  have r0: "\<bar>- 1200 - of_int (initial_investment sampleVenture)\<bar> + 1 < (2 ^ 53 :: real)"
    by (simp add: inv)
  have p1: "profit (?ds ! 1) = Fin 312" using sample_boundary_stored(3) by simp
  have c0: "cumulativeProfit (?ds ! (1 - 1)) = Fin (- 101199)"
    using sample_boundary_stored(2) by simp
  have r1: "\<bar>- 101199 + 312\<bar> + 1 < (2 ^ 53 :: real)" by simp
  note t = cumulativeProfit_recurrence [where fl = double and inp = sampleVenture
      and rnd = boundaryDraw]
  from t ne(1) have a: "cumulativeProfit (?ds ! 0)
       = js_round (fl_sub double (profitAt double sampleVenture boundaryDraw 0)
           (Fin (of_int (initial_investment sampleVenture))))" by blast
  from t k(1) have b: "cumulativeProfit (?ds ! 1)
       = js_round (fl_add double (cumulativeProfit (?ds ! (1 - 1)))
           (profitAt double sampleVenture boundaryDraw 1))" by blast
  from t ne(2) have c: "cumulativeProfit (?es ! 0)
       = js_sub (profit (?es ! 0)) (Fin (of_int (initial_investment sampleVenture)))" by blast
  from t k(2) have d: "cumulativeProfit (?es ! 1)
       = js_add (cumulativeProfit (?es ! (1 - 1))) (profit (?es ! 1))" by blast
  from t fl ne(1) p0 r0 have e: "\<exists>a. cumulativeProfit (?ds ! 0) = Fin a
         \<and> \<bar>a - (- 1200 - of_int (initial_investment sampleVenture))\<bar> \<le> 1" by blast
  from t fl k(1) p1 c0 r1 have f: "\<exists>a. cumulativeProfit (?ds ! 1) = Fin a
         \<and> \<bar>a - (- 101199 + 312)\<bar> \<le> 1" by blast
  have row: "getGrowthFactors (business_model sampleVenture) = Row defaultFactors"
    by (simp add: sampleVenture_def default_row)
  from t row k(1) have g: "\<exists>b c. profit (?ds ! 1) = Fin b \<and> cumulativeProfit (?ds ! 1) = Fin c"
    by blast
  show ?thesis
    apply (intro conjI)
    using ne k fl p0 r0 p1 c0 r1 a b c d e f row g by (simp_all only: simp_thms)
qed

theorem cumulativeProfit_double_counterexample:
  "cumulativeProfit (generateDynamicMonthlyData double oneMonthVenture boundaryDraw ! 0)
   \<noteq> js_sub (profit (generateDynamicMonthlyData double oneMonthVenture boundaryDraw ! 0))
         (Fin (of_int (initial_investment oneMonthVenture)))"
proof -
  have f: "initial_investment oneMonthVenture = 100000"
    "expected_monthly_revenue oneMonthVenture = 20000"
    "monthly_operating_cost oneMonthVenture = 12000" "business_model oneMonthVenture = None"
    by (simp_all add: oneMonthVenture_def)
  have "length (generateDynamicMonthlyData double oneMonthVenture boundaryDraw) = 1"
    by (simp add: length_generate oneMonthVenture_def)
  then have ne: "generateDynamicMonthlyData double oneMonthVenture boundaryDraw \<noteq> []" by auto
  from boundary_stored [OF f ne] f(1) show ?thesis by (simp add: js_sub_def)
qed

lemma generate_nth_revenue:
  assumes "k < length (generateDynamicMonthlyData fl inp rnd)"
  shows "revenue (generateDynamicMonthlyData fl inp rnd ! k)
    = js_round (adjustedRevenueAt fl inp rnd k)"
  using assms by (simp add: generate_nth newPoint_def adjustedRevenueAt_def Let_def)

lemma previousRevenue_first: "previousRevenue (stateAfter fl inp gf rnd 0) a = a"
  by (simp add: previousRevenue_def stateAfter_0 initialState_def)

lemma previousRevenue_later:
  "previousRevenue (stateAfter fl inp gf rnd (Suc j)) a
     = js_or (revenue (newPoint fl inp gf rnd (stateAfter fl inp gf rnd j))) a"
proof -
  have "monthlyData (stateAfter fl inp gf rnd (Suc j)) ! j
      = newPoint fl inp gf rnd (stateAfter fl inp gf rnd j)"
    by (simp add: monthlyData_stateAfter nth_append)
  then show ?thesis
    by (simp add: previousRevenue_def loop_month_stateAfter length_monthlyData_stateAfter)
qed

lemma generate_nth_growth_first:
  assumes "generateDynamicMonthlyData fl inp rnd \<noteq> []"
  shows "revenueGrowth (generateDynamicMonthlyData fl inp rnd ! 0)
    = js_round (fl_mul fl
        (fl_div fl (fl_sub fl (adjustedRevenueAt fl inp rnd 0) (adjustedRevenueAt fl inp rnd 0))
           (adjustedRevenueAt fl inp rnd 0))
        (Fin 100))"
proof -
  from assms have "0 < length (generateDynamicMonthlyData fl inp rnd)" by simp
  then show ?thesis
    by (simp add: generate_nth newPoint_def adjustedRevenueAt_def Let_def previousRevenue_first)
qed

lemma generate_nth_growth_later:
  assumes "Suc j < length (generateDynamicMonthlyData fl inp rnd)"
  shows "revenueGrowth (generateDynamicMonthlyData fl inp rnd ! Suc j)
    = js_round (fl_mul fl
        (fl_div fl
           (fl_sub fl (adjustedRevenueAt fl inp rnd (Suc j))
              (js_or (revenue (generateDynamicMonthlyData fl inp rnd ! j))
                 (adjustedRevenueAt fl inp rnd (Suc j))))
           (js_or (revenue (generateDynamicMonthlyData fl inp rnd ! j))
              (adjustedRevenueAt fl inp rnd (Suc j))))
        (Fin 100))"
proof -
  from assms have j: "j < length (generateDynamicMonthlyData fl inp rnd)" by simp
  show ?thesis
    by (simp add: generate_nth [OF assms] generate_nth [OF j] newPoint_def
        adjustedRevenueAt_def Let_def previousRevenue_later)
qed

lemma adjustedRevenueAt_first_exact:
  "adjustedRevenueAt exact inp rnd 0
     = Fin (of_int (expected_monthly_revenue inp) * (6 / 10) * (9 / 10))"
  by (simp add: adjustedRevenueAt_def adjustedRevenue_def grownRevenue_def stateAfter_0
      initialState_def getSeasonalMultiplier_def seasonalPatterns_def js_rem_def js_or_def
      exact_def Let_def)

lemma growth_of_itself:
  assumes "fl 0 = 0" and "x \<noteq> 0"
  shows "js_round (fl_mul fl (fl_div fl (fl_sub fl (Fin x) (Fin x)) (Fin x)) (Fin 100)) = Fin 0"
  using assms by (simp add: fl_mul_def fl_div_def fl_sub_def js_sub_def)

text \<open>
  C4 (as the source has it). For every month \<open>m > 1\<close> the stored revenue growth is
  \<open>round(((adjustedRevenue\<^sub>m - previous) / previous) * 100)\<close>, where \<open>previous\<close> is the
  stored revenue of the month before, that is, the rounded \<open>adjustedRevenue\<close> of that
  month, and \<open>adjustedRevenue\<^sub>m\<close> itself when that stored value is 0 or NaN; this holds for
  every rounding. For month 1 the growth is computed from \<open>adjustedRevenue\<^sub>1\<close> and itself:
  it is 0 whenever \<open>adjustedRevenue\<^sub>1\<close> is a number other than 0 and the rounding keeps 0,
  and in exact arithmetic for every expected monthly revenue other than 0.
\<close>

theorem revenueGrowth_stored:
  "(generateDynamicMonthlyData fl inp rnd \<noteq> [] \<and> fl 0 = 0
      \<and> (\<exists>a. a \<noteq> 0 \<and> adjustedRevenueAt fl inp rnd 0 = Fin a) \<longrightarrow>
      revenueGrowth (generateDynamicMonthlyData fl inp rnd ! 0) = Fin 0)
   \<and> (generateDynamicMonthlyData exact inp rnd \<noteq> [] \<and> expected_monthly_revenue inp \<noteq> 0 \<longrightarrow>
      revenueGrowth (generateDynamicMonthlyData exact inp rnd ! 0) = Fin 0)
   \<and> (\<forall>k. 0 < k \<and> k < length (generateDynamicMonthlyData fl inp rnd) \<longrightarrow>
        revenue (generateDynamicMonthlyData fl inp rnd ! (k - 1))
          = js_round (adjustedRevenueAt fl inp rnd (k - 1))
        \<and> revenueGrowth (generateDynamicMonthlyData fl inp rnd ! k)
          = js_round (fl_mul fl
              (fl_div fl
                (fl_sub fl (adjustedRevenueAt fl inp rnd k)
                  (js_or (revenue (generateDynamicMonthlyData fl inp rnd ! (k - 1)))
                     (adjustedRevenueAt fl inp rnd k)))
                (js_or (revenue (generateDynamicMonthlyData fl inp rnd ! (k - 1)))
                   (adjustedRevenueAt fl inp rnd k)))
              (Fin 100)))"
proof (intro conjI impI allI)
  assume a: "generateDynamicMonthlyData fl inp rnd \<noteq> [] \<and> fl 0 = 0
      \<and> (\<exists>a. a \<noteq> 0 \<and> adjustedRevenueAt fl inp rnd 0 = Fin a)"
  then obtain x where x: "x \<noteq> 0" "adjustedRevenueAt fl inp rnd 0 = Fin x" by blast
  from a have z: "fl 0 = 0" by simp
  from a have "generateDynamicMonthlyData fl inp rnd \<noteq> []" by simp
  from generate_nth_growth_first [OF this]
  show "revenueGrowth (generateDynamicMonthlyData fl inp rnd ! 0) = Fin 0"
    by (simp only: x(2) growth_of_itself [where fl = fl and x = x, OF z x(1)])
next
  assume a: "generateDynamicMonthlyData exact inp rnd \<noteq> [] \<and> expected_monthly_revenue inp \<noteq> 0"
  then have nz: "of_int (expected_monthly_revenue inp) * (6 / 10) * (9 / 10) \<noteq> (0::real)"
    by simp
  have z: "exact 0 = 0" by (simp add: exact_def)
  from a have "generateDynamicMonthlyData exact inp rnd \<noteq> []" by simp
  from generate_nth_growth_first [OF this]
  show "revenueGrowth (generateDynamicMonthlyData exact inp rnd ! 0) = Fin 0"
    by (simp only: adjustedRevenueAt_first_exact growth_of_itself [where fl = exact, OF z nz])
next
  fix k
  assume k: "0 < k \<and> k < length (generateDynamicMonthlyData fl inp rnd)"
  then obtain j where j: "k = Suc j" by (cases k) auto
  from k j have sj: "Suc j < length (generateDynamicMonthlyData fl inp rnd)" by simp
  then have lt: "j < length (generateDynamicMonthlyData fl inp rnd)" by simp
  show "revenue (generateDynamicMonthlyData fl inp rnd ! (k - 1))
      = js_round (adjustedRevenueAt fl inp rnd (k - 1))"
    unfolding j diff_Suc_1 using lt by (rule generate_nth_revenue)
  show "revenueGrowth (generateDynamicMonthlyData fl inp rnd ! k)
          = js_round (fl_mul fl
              (fl_div fl
                (fl_sub fl (adjustedRevenueAt fl inp rnd k)
                  (js_or (revenue (generateDynamicMonthlyData fl inp rnd ! (k - 1)))
                     (adjustedRevenueAt fl inp rnd k)))
                (js_or (revenue (generateDynamicMonthlyData fl inp rnd ! (k - 1)))
                   (adjustedRevenueAt fl inp rnd k)))
              (Fin 100))"
    unfolding j diff_Suc_1 using sj by (rule generate_nth_growth_later)
qed

text \<open>
  With an expected monthly revenue of 1 and no variance, the adjusted revenue is about
  0.54 in month 1 and about 0.6156 in month 2, and the stored revenue of month 1 is 1. In
  double arithmetic the stored growth of month 2 is \<open>round((0.6156 - 1) / 1 * 100) = -38\<close>;
  computed from the unrounded 0.54 it would be \<open>round((0.6156 - 0.54) / 0.54 * 100) = 14\<close>.
\<close>

lemma noVariance_double: "variance double (noVariance n) = 1"
  by (simp add: variance_def noVariance_def double_literals double_eval)

lemma tiny_fields:
  "expected_monthly_revenue tinyVenture = 1" "business_model tinyVenture = None"
  by (simp_all add: tinyVenture_def)

lemma tiny_adjusted:
  "adjustedRevenueAt double tinyVenture noVariance 0
     = Fin (607985949695017 / 1125899906842624)"
  "adjustedRevenueAt double tinyVenture noVariance (Suc 0)
     = Fin (5544831861218555 / 9007199254740992)"
proof -
  have r: "fl_mul double (Fin 1) (Fin (5404319552844595 / 9007199254740992))
      = Fin (5404319552844595 / 9007199254740992)"
    by (simp add: rounded_defs double_eval)
  have a: "fl_mul double (Fin (5404319552844595 / 9007199254740992))
        (Fin (8106479329266893 / 9007199254740992))
      = Fin (607985949695017 / 1125899906842624)"
    by (simp add: rounded_defs double_eval)
  show "adjustedRevenueAt double tinyVenture noVariance 0
     = Fin (607985949695017 / 1125899906842624)"
    by (simp add: adjustedRevenueAt_def adjustedRevenue_def grownRevenue_def stateAfter_0
        initialState_def getSeasonalMultiplier_def seasonalPatterns_def js_rem_def js_or_def
        Let_def tinyVenture_def double_literals r a)
  have g: "fl_mul double (Fin (5764607523034235 / 72057594037927936)) (Fin 1)
      = Fin (5764607523034235 / 72057594037927936)"
    by (simp add: rounded_defs double_eval)
  have g1: "fl_add double (Fin 1) (Fin (5764607523034235 / 72057594037927936))
      = Fin (607985949695017 / 562949953421312)"
    by (simp add: rounded_defs double_eval)
  have c: "fl_mul double (Fin (5404319552844595 / 9007199254740992))
        (Fin (607985949695017 / 562949953421312))
      = Fin (5836665117072163 / 9007199254740992)"
    by (simp add: rounded_defs double_eval)
  have cap: "fl_mul double (Fin 1) (Fin (5404319552844595 / 4503599627370496))
      = Fin (5404319552844595 / 4503599627370496)"
    by (simp add: rounded_defs double_eval)
  have m: "js_min (Fin (5836665117072163 / 9007199254740992))
        (Fin (5404319552844595 / 4503599627370496))
      = Fin (5836665117072163 / 9007199254740992)"
    by (simp add: js_min_def)
  have a2: "fl_mul double (Fin (5836665117072163 / 9007199254740992))
        (Fin (4278419646001971 / 4503599627370496))
      = Fin (5544831861218555 / 9007199254740992)"
    by (simp add: rounded_defs double_eval)
  have cur: "currentRevenue (stateAfter double tinyVenture (Row defaultFactors) noVariance (Suc 0))
      = Fin (5404319552844595 / 9007199254740992)"
    by (simp add: stateAfter_def monthBody_def grownRevenue_def initialState_def tiny_fields
        double_literals r)
  have d: "draws (stateAfter double tinyVenture (Row defaultFactors) noVariance (Suc 0)) = 1"
    by (simp add: stateAfter_def monthBody_def drawsAfterGrowth_def initialState_def)
  show "adjustedRevenueAt double tinyVenture noVariance (Suc 0)
     = Fin (5544831861218555 / 9007199254740992)"
    by (simp add: adjustedRevenueAt_def adjustedRevenue_def grownRevenue_def
        loop_month_stateAfter cur d noVariance_double tiny_fields default_row
        getSeasonalMultiplier_def seasonalPatterns_def js_rem_def js_or_def
        Let_def double_literals g g1 c cap m a2)
qed

lemma tiny_unrounded_growth:
  "js_round (fl_mul double
      (fl_div double
         (fl_sub double (adjustedRevenueAt double tinyVenture noVariance (Suc 0))
            (adjustedRevenueAt double tinyVenture noVariance 0))
         (adjustedRevenueAt double tinyVenture noVariance 0))
      (Fin 100)) = Fin 14"
  by (simp add: tiny_adjusted rounded_defs js_sub_def double_eval)

lemma tiny_stored_growth:
  "revenueGrowth (generateDynamicMonthlyData double tinyVenture noVariance ! Suc 0) = Fin (- 38)"
proof -
  have len: "length (generateDynamicMonthlyData double tinyVenture noVariance) = 2"
    by (simp add: length_generate tinyVenture_def)
  have r: "revenue (generateDynamicMonthlyData double tinyVenture noVariance ! 0) = Fin 1"
    by (simp add: generate_nth_revenue len tiny_adjusted)
  have "Suc 0 < length (generateDynamicMonthlyData double tinyVenture noVariance)"
    by (simp add: len)
  from generate_nth_growth_later [OF this] show ?thesis
    by (simp add: r tiny_adjusted js_or_def rounded_defs js_sub_def double_eval)
qed

theorem revenueGrowth_stored_witness:
  "generateDynamicMonthlyData double tinyVenture noVariance \<noteq> []
   \<and> double 0 = 0
   \<and> adjustedRevenueAt double tinyVenture noVariance 0 = Fin (607985949695017 / 1125899906842624)
   \<and> generateDynamicMonthlyData exact tinyVenture noVariance \<noteq> []
   \<and> expected_monthly_revenue tinyVenture \<noteq> 0
   \<and> 0 < (1::nat) \<and> 1 < length (generateDynamicMonthlyData double tinyVenture noVariance)
   \<and> revenueGrowth (generateDynamicMonthlyData double tinyVenture noVariance ! 0) = Fin 0
   \<and> revenueGrowth (generateDynamicMonthlyData exact tinyVenture noVariance ! 0) = Fin 0
   \<and> revenue (generateDynamicMonthlyData double tinyVenture noVariance ! (1 - 1)) = Fin 1
   \<and> revenueGrowth (generateDynamicMonthlyData double tinyVenture noVariance ! 1) = Fin (- 38)"
proof -
  have len: "length (generateDynamicMonthlyData double tinyVenture noVariance) = 2"
    "length (generateDynamicMonthlyData exact tinyVenture noVariance) = 2"
    by (simp_all add: length_generate tinyVenture_def)
  then have ne: "generateDynamicMonthlyData double tinyVenture noVariance \<noteq> []"
    "generateDynamicMonthlyData exact tinyVenture noVariance \<noteq> []"
    by auto
  have z: "double 0 = 0" by (rule double_integers)
  have a: "\<exists>a. a \<noteq> 0 \<and> adjustedRevenueAt double tinyVenture noVariance 0 = Fin a"
    by (rule exI [of _ "607985949695017 / 1125899906842624"]) (simp add: tiny_adjusted)
  have e: "expected_monthly_revenue tinyVenture \<noteq> 0" by (simp add: tiny_fields)
  have k: "0 < (1::nat) \<and> 1 < length (generateDynamicMonthlyData double tinyVenture noVariance)"
    by (simp add: len)
  note t = revenueGrowth_stored [where fl = double and inp = tinyVenture and rnd = noVariance]
  from t ne z a have g0: "revenueGrowth (generateDynamicMonthlyData double tinyVenture noVariance ! 0)
      = Fin 0" by blast
  from t ne e have x0: "revenueGrowth (generateDynamicMonthlyData exact tinyVenture noVariance ! 0)
      = Fin 0" by blast
  from t k have r: "revenue (generateDynamicMonthlyData double tinyVenture noVariance ! (1 - 1))
      = js_round (adjustedRevenueAt double tinyVenture noVariance (1 - 1))"
    and g: "revenueGrowth (generateDynamicMonthlyData double tinyVenture noVariance ! 1)
          = js_round (fl_mul double
              (fl_div double
                (fl_sub double (adjustedRevenueAt double tinyVenture noVariance 1)
                  (js_or (revenue (generateDynamicMonthlyData double tinyVenture noVariance ! (1 - 1)))
                     (adjustedRevenueAt double tinyVenture noVariance 1)))
                (js_or (revenue (generateDynamicMonthlyData double tinyVenture noVariance ! (1 - 1)))
                   (adjustedRevenueAt double tinyVenture noVariance 1)))
              (Fin 100))"
    by blast+
  from r have r1: "revenue (generateDynamicMonthlyData double tinyVenture noVariance ! (1 - 1))
      = Fin 1"
    by (simp add: tiny_adjusted)
  from g have g1: "revenueGrowth (generateDynamicMonthlyData double tinyVenture noVariance ! 1)
      = Fin (- 38)"
    unfolding r1 by (simp add: tiny_adjusted js_or_def rounded_defs js_sub_def double_eval)
  from ne z e k g0 x0 r1 g1 show ?thesis by (simp add: tiny_adjusted)
qed

theorem revenueGrowth_unrounded_counterexample:
  "revenueGrowth (generateDynamicMonthlyData double tinyVenture noVariance ! 1)
   \<noteq> js_round (fl_mul double
        (fl_div double
           (fl_sub double (adjustedRevenueAt double tinyVenture noVariance 1)
              (adjustedRevenueAt double tinyVenture noVariance 0))
           (adjustedRevenueAt double tinyVenture noVariance 0))
        (Fin 100))"
  using tiny_stored_growth tiny_unrounded_growth by simp

section \<open>Properties of the payback estimator\<close>

lemma paybackScan_none:
  "\<forall>j. i \<le> j \<and> j < length mdata \<longrightarrow> \<not> js_ge (cumulativeProfit (mdata ! j)) (Fin 0)
   \<Longrightarrow> paybackScan fl mdata i = fl (real (length mdata) / 12)"
proof (induction fl mdata i rule: paybackScan.induct)
  case (1 fl mdata i)
  show ?case
  proof (cases "i < length mdata")
    case True
    with "1.prems" have no: "\<not> js_ge (cumulativeProfit (mdata ! i)) (Fin 0)" by simp
    from "1.prems" have "\<forall>j. i + 1 \<le> j \<and> j < length mdata \<longrightarrow>
        \<not> js_ge (cumulativeProfit (mdata ! j)) (Fin 0)" by simp
    with "1.IH" [OF True no] have "paybackScan fl mdata (i + 1) = fl (real (length mdata) / 12)" .
    with True no show ?thesis by (subst paybackScan.simps) simp
  next
    case False
    then show ?thesis by (subst paybackScan.simps) simp
  qed
qed

lemma paybackScan_first:
  "i \<le> k \<Longrightarrow> k < length mdata \<Longrightarrow> js_ge (cumulativeProfit (mdata ! k)) (Fin 0)
   \<Longrightarrow> \<forall>j. i \<le> j \<and> j < k \<longrightarrow> \<not> js_ge (cumulativeProfit (mdata ! j)) (Fin 0)
   \<Longrightarrow> paybackScan fl mdata i = fl ((real k + 1) / 12)"
proof (induction fl mdata i rule: paybackScan.induct)
  case (1 fl mdata i)
  from "1.prems" have inside: "i < length mdata" by simp
  show ?case
  proof (cases "i = k")
    case True
    with "1.prems" inside show ?thesis by (subst paybackScan.simps) simp
  next
    case False
    with "1.prems" have lt: "i < k" by simp
    with "1.prems" have no: "\<not> js_ge (cumulativeProfit (mdata ! i)) (Fin 0)" by simp
    from lt have le: "i + 1 \<le> k" by simp
    from "1.prems" have rest: "\<forall>j. i + 1 \<le> j \<and> j < k \<longrightarrow>
        \<not> js_ge (cumulativeProfit (mdata ! j)) (Fin 0)" by simp
    from "1.IH" [OF inside no le "1.prems"(2) "1.prems"(3) rest]
    have "paybackScan fl mdata (i + 1) = fl ((real k + 1) / 12)" .
    with inside no show ?thesis by (subst paybackScan.simps) simp
  qed
qed

lemma js_negative_not_ge: "js_negative c \<Longrightarrow> \<not> js_ge c (Fin 0)"
  by (cases c) simp_all

text \<open>
  C5. The estimator returns \<open>(k + 1) / 12\<close> for the smallest 0-based index \<open>k\<close> whose
  cumulative profit passes the test \<open>>= 0\<close>, and \<open>length / 12\<close> when no element passes
  it (a number, not an error). In particular a series whose cumulative profit is negative
  in the months 1 to 4 and not negative from month 5 on gives \<open>5 / 12\<close>. The quotients
  are those of the arithmetic \<open>fl\<close>; this holds for every rounding.
\<close>

theorem payback_first_break_even:
  "(\<forall>k. k < length mdata \<and> js_ge (cumulativeProfit (mdata ! k)) (Fin 0)
        \<and> (\<forall>j. j < k \<longrightarrow> \<not> js_ge (cumulativeProfit (mdata ! j)) (Fin 0))
      \<longrightarrow> calculateDynamicPaybackPeriod fl mdata initialInvestment = fl ((real k + 1) / 12))
   \<and> ((\<forall>j. j < length mdata \<longrightarrow> \<not> js_ge (cumulativeProfit (mdata ! j)) (Fin 0))
      \<longrightarrow> calculateDynamicPaybackPeriod fl mdata initialInvestment
            = fl (real (length mdata) / 12))
   \<and> (4 < length mdata
        \<and> (\<forall>j. j < 4 \<longrightarrow> js_negative (cumulativeProfit (mdata ! j)))
        \<and> (\<forall>j. 4 \<le> j \<and> j < length mdata \<longrightarrow> js_ge (cumulativeProfit (mdata ! j)) (Fin 0))
      \<longrightarrow> calculateDynamicPaybackPeriod fl mdata initialInvestment = fl (5 / 12))"
proof (intro conjI allI impI)
  fix k
  assume "k < length mdata \<and> js_ge (cumulativeProfit (mdata ! k)) (Fin 0)
        \<and> (\<forall>j. j < k \<longrightarrow> \<not> js_ge (cumulativeProfit (mdata ! j)) (Fin 0))"
  then show "calculateDynamicPaybackPeriod fl mdata initialInvestment = fl ((real k + 1) / 12)"
    unfolding calculateDynamicPaybackPeriod_def
    by (intro paybackScan_first) simp_all
next
  assume "\<forall>j. j < length mdata \<longrightarrow> \<not> js_ge (cumulativeProfit (mdata ! j)) (Fin 0)"
  then show "calculateDynamicPaybackPeriod fl mdata initialInvestment
      = fl (real (length mdata) / 12)"
    unfolding calculateDynamicPaybackPeriod_def
    by (intro paybackScan_none) simp
next
  assume a: "4 < length mdata
        \<and> (\<forall>j. j < 4 \<longrightarrow> js_negative (cumulativeProfit (mdata ! j)))
        \<and> (\<forall>j. 4 \<le> j \<and> j < length mdata \<longrightarrow> js_ge (cumulativeProfit (mdata ! j)) (Fin 0))"
  then have "paybackScan fl mdata 0 = fl ((real 4 + 1) / 12)"
    by (intro paybackScan_first) (simp_all add: js_negative_not_ge)
  then show "calculateDynamicPaybackPeriod fl mdata initialInvestment = fl (5 / 12)"
    by (simp add: calculateDynamicPaybackPeriod_def)
qed

lemma ramp_nth: "j < n \<Longrightarrow> rampSeries n ! j = rampPoint (1 + int j)"
  by (simp add: rampSeries_def)

theorem payback_first_break_even_witness:
  "4 < length (rampSeries 6)
   \<and> js_negative (cumulativeProfit (rampSeries 6 ! 3))
   \<and> js_ge (cumulativeProfit (rampSeries 6 ! 4)) (Fin 0)
   \<and> calculateDynamicPaybackPeriod double (rampSeries 6) 100000 = double ((real 4 + 1) / 12)
   \<and> calculateDynamicPaybackPeriod double (rampSeries 6) 100000 = double (5 / 12)
   \<and> \<not> js_ge (cumulativeProfit (rampSeries 4 ! 3)) (Fin 0)
   \<and> calculateDynamicPaybackPeriod double (rampSeries 4) 100000
       = double (real (length (rampSeries 4)) / 12)"
proof -
  have len: "4 < length (rampSeries 6)" by (simp add: rampSeries_def)
  have neg: "\<forall>j. j < 4 \<longrightarrow> js_negative (cumulativeProfit (rampSeries 6 ! j))"
    by (simp add: ramp_nth rampPoint_def)
  have pos: "\<forall>j. 4 \<le> j \<and> j < length (rampSeries 6) \<longrightarrow>
      js_ge (cumulativeProfit (rampSeries 6 ! j)) (Fin 0)"
    by (simp add: ramp_nth rampPoint_def rampSeries_def)
  have before: "\<forall>j. j < 4 \<longrightarrow> \<not> js_ge (cumulativeProfit (rampSeries 6 ! j)) (Fin 0)"
    by (simp add: ramp_nth rampPoint_def)
  have never: "\<forall>j. j < length (rampSeries 4) \<longrightarrow>
      \<not> js_ge (cumulativeProfit (rampSeries 4 ! j)) (Fin 0)"
    by (simp add: ramp_nth rampPoint_def rampSeries_def)
  from pos len have at4: "js_ge (cumulativeProfit (rampSeries 6 ! 4)) (Fin 0)" by simp
  from neg have at3: "js_negative (cumulativeProfit (rampSeries 6 ! 3))" by simp
  have last: "\<not> js_ge (cumulativeProfit (rampSeries 4 ! 3)) (Fin 0)"
    by (simp add: ramp_nth rampPoint_def)
  from payback_first_break_even [where fl = double and mdata = "rampSeries 6"
      and initialInvestment = 100000] len at4 before
  have a: "calculateDynamicPaybackPeriod double (rampSeries 6) 100000
      = double ((real 4 + 1) / 12)" by blast
  from payback_first_break_even [where fl = double and mdata = "rampSeries 6"
      and initialInvestment = 100000] len neg pos
  have b: "calculateDynamicPaybackPeriod double (rampSeries 6) 100000 = double (5 / 12)" by blast
  from payback_first_break_even [where fl = double and mdata = "rampSeries 4"
      and initialInvestment = 100000] never
  have c: "calculateDynamicPaybackPeriod double (rampSeries 4) 100000
      = double (real (length (rampSeries 4)) / 12)"
    by blast
  from len at3 at4 a b last c show ?thesis by blast
qed

section \<open>Properties of the chart builders\<close>

lemma enumerate_nth: "enumerate 0 xs = map (\<lambda>i. (i, xs ! i)) [0..<length xs]"
  by (metis enumerate_map_upt map_nth)

lemma sampleEvery_indices:
  "sampleEvery r xs = map (\<lambda>i. xs ! i) (filter (keepIndex r) [0..<length xs])"
  by (simp add: sampleEvery_def enumerate_nth filter_map o_def)

lemma sampleRateOf_covers:
  assumes "0 < tp"
  shows "n \<le> sampleRateOf n tp * tp"
proof -
  from assms have "real n / real tp * real tp \<le> of_int \<lceil>real n / real tp\<rceil> * real tp"
    by (intro mult_right_mono) simp_all
  with assms have "real n \<le> of_int \<lceil>real n / real tp\<rceil> * real tp" by simp
  moreover have "0 \<le> \<lceil>real n / real tp\<rceil>"
  proof -
    have "0 \<le> real n / real tp" by simp
    then have "- 1 < real n / real tp" by linarith
    then show ?thesis by (simp only: zero_le_ceiling)
  qed
  ultimately have "real n \<le> real (nat \<lceil>real n / real tp\<rceil>) * real tp" by simp
  then have "real n \<le> real (nat \<lceil>real n / real tp\<rceil> * tp)" by simp
  then show ?thesis unfolding sampleRateOf_def by (simp only: of_nat_le_iff)
qed

lemma sampleRateOf_positive:
  assumes "0 < tp" and "0 < n"
  shows "0 < sampleRateOf n tp"
proof -
  from sampleRateOf_covers [OF assms(1), of n] assms(2) show ?thesis
    by (cases "sampleRateOf n tp = 0") simp_all
qed



lemma keepIndex_mod:
  "filter (keepIndex r) [0..<n] = filter (\<lambda>i. i mod r = 0) [0..<n]" if "0 < r \<or> n = 0"
  using that by (auto simp: keepIndex_def intro: filter_cong)

lemma sampleEvery_mod:
  assumes "0 < tp"
  shows "sampleEvery (sampleRateOf (length xs) tp) xs
    = map (\<lambda>i. xs ! i) (filter (\<lambda>i. i mod sampleRateOf (length xs) tp = 0) [0..<length xs])"
proof -
  have "0 < sampleRateOf (length xs) tp \<or> length xs = 0"
    using sampleRateOf_positive [OF assms] by auto
  then show ?thesis by (simp only: sampleEvery_indices keepIndex_mod)
qed

lemma sampleEvery_first:
  assumes "xs \<noteq> []" and "0 < r"
  shows "sampleEvery r xs \<noteq> [] \<and> hd (sampleEvery r xs) = hd xs"
proof -
  from assms(1) have "[0..<length xs] = 0 # [1..<length xs]"
    by (simp add: upt_rec)
  with assms show ?thesis
    by (simp add: sampleEvery_indices keepIndex_def hd_conv_nth)
qed


lemma labels_revenueCost:
  "labels (generateRevenueCostChartData mdata)
     = map (\<lambda>item. monthLabel (month item)) (sampleEvery (sampleRateOf (length mdata) 24) mdata)"
  by (simp add: generateRevenueCostChartData_def Let_def)

lemma labels_roiGrowth:
  "labels (generateRoiGrowthChartData fl mdata finalROI initialInvestment)
     = map (\<lambda>item. monthLabel (month item)) (sampleEvery (sampleRateOf (length mdata) 12) mdata)"
  by (simp add: generateRoiGrowthChartData_def Let_def sampleEvery_indices o_def)








lemma datasets_roiGrowth:
  "datasets (generateRoiGrowthChartData fl mdata finalROI initialInvestment)
     = [\<lparr>label = ''ROI Progress'',
         data = map (\<lambda>item. js_min (monthRoi fl item initialInvestment) finalROI)
                  (sampleEvery (sampleRateOf (length mdata) 12) mdata)\<rparr>,
        \<lparr>label = ''Target ROI'',
         data = map (\<lambda>item. finalROI) (sampleEvery (sampleRateOf (length mdata) 12) mdata)\<rparr>]"
  by (simp add: generateRoiGrowthChartData_def Let_def sampleEvery_indices o_def)

text \<open>
  C10. For a series that is not empty both sample rates are at least 1, index 0 passes
  the test \<open>index mod sampleRate = 0\<close>, and both charts start with the first month of the
  series: the first label is that of the first month, the three datasets of the revenue
  and cost chart start with the revenue, the cost and the profit of the first month, and
  the two datasets of the ROI chart, \<open>ROI Progress\<close> and \<open>Target ROI\<close>, start with the
  clamped ROI of the first month and with \<open>finalROI\<close>. The labels and all the datasets
  are not empty.
\<close>

theorem charts_keep_first_month:
  assumes "mdata \<noteq> []"
  shows "0 mod sampleRateOf (length mdata) 24 = 0 \<and> 0 mod sampleRateOf (length mdata) 12 = 0
    \<and> 1 \<le> sampleRateOf (length mdata) 24 \<and> 1 \<le> sampleRateOf (length mdata) 12
    \<and> labels (generateRevenueCostChartData mdata) \<noteq> []
    \<and> hd (labels (generateRevenueCostChartData mdata)) = monthLabel (month (mdata ! 0))
    \<and> map (\<lambda>d. hd (data d)) (datasets (generateRevenueCostChartData mdata))
        = [revenue (mdata ! 0), cost (mdata ! 0), profit (mdata ! 0)]
    \<and> labels (generateRoiGrowthChartData fl mdata finalROI initialInvestment) \<noteq> []
    \<and> hd (labels (generateRoiGrowthChartData fl mdata finalROI initialInvestment))
        = monthLabel (month (mdata ! 0))
    \<and> (\<forall>d \<in> set (datasets (generateRevenueCostChartData mdata)). data d \<noteq> [])
    \<and> (\<forall>d \<in> set (datasets (generateRoiGrowthChartData fl mdata finalROI initialInvestment)).
          data d \<noteq> [])
    \<and> map label (datasets (generateRevenueCostChartData mdata))
        = [''Revenue'', ''Cost'', ''Profit'']
    \<and> map label (datasets (generateRoiGrowthChartData fl mdata finalROI initialInvestment))
        = [''ROI Progress'', ''Target ROI'']
    \<and> map (\<lambda>d. hd (data d))
          (datasets (generateRoiGrowthChartData fl mdata finalROI initialInvestment))
        = [js_min (monthRoi fl (mdata ! 0) initialInvestment) finalROI, finalROI]
    \<and> (\<forall>d \<in> set (datasets (generateRevenueCostChartData mdata)).
          length (data d) = length (labels (generateRevenueCostChartData mdata)))
    \<and> (\<forall>d \<in> set (datasets (generateRoiGrowthChartData fl mdata finalROI initialInvestment)).
          length (data d)
            = length (labels (generateRoiGrowthChartData fl mdata finalROI initialInvestment)))"
proof -
  from assms have n: "0 < length mdata" by simp
  have r24: "0 < sampleRateOf (length mdata) 24" by (rule sampleRateOf_positive [OF _ n]) simp
  have r12: "0 < sampleRateOf (length mdata) 12" by (rule sampleRateOf_positive [OF _ n]) simp
  note s24 = sampleEvery_first [OF assms r24]
  note s12 = sampleEvery_first [OF assms r12]
  from assms have h: "hd mdata = mdata ! 0" by (simp add: hd_conv_nth)
  have a: "labels (generateRevenueCostChartData mdata) \<noteq> []
    \<and> hd (labels (generateRevenueCostChartData mdata)) = monthLabel (month (mdata ! 0))"
    using s24 h by (simp add: labels_revenueCost hd_map)
  have b: "map (\<lambda>d. hd (data d)) (datasets (generateRevenueCostChartData mdata))
        = [revenue (mdata ! 0), cost (mdata ! 0), profit (mdata ! 0)]"
    using s24 h by (simp add: generateRevenueCostChartData_def Let_def hd_map)
  have c: "labels (generateRoiGrowthChartData fl mdata finalROI initialInvestment) \<noteq> []
    \<and> hd (labels (generateRoiGrowthChartData fl mdata finalROI initialInvestment))
        = monthLabel (month (mdata ! 0))"
    using s12 h by (simp add: labels_roiGrowth hd_map)
  have d: "\<forall>d \<in> set (datasets (generateRevenueCostChartData mdata)). data d \<noteq> []"
    using s24 by (simp add: generateRevenueCostChartData_def Let_def)
  have e: "\<forall>d \<in> set (datasets (generateRoiGrowthChartData fl mdata finalROI initialInvestment)).
          data d \<noteq> []"
    using s12 by (simp add: datasets_roiGrowth)
  have f: "map label (datasets (generateRevenueCostChartData mdata))
        = [''Revenue'', ''Cost'', ''Profit'']"
    by (simp add: generateRevenueCostChartData_def Let_def)
  have g: "map label (datasets (generateRoiGrowthChartData fl mdata finalROI initialInvestment))
        = [''ROI Progress'', ''Target ROI'']"
    by (simp add: datasets_roiGrowth)
  have i: "map (\<lambda>d. hd (data d))
          (datasets (generateRoiGrowthChartData fl mdata finalROI initialInvestment))
        = [js_min (monthRoi fl (mdata ! 0) initialInvestment) finalROI, finalROI]"
    using s12 h by (simp add: datasets_roiGrowth hd_map)
  have j: "\<forall>d \<in> set (datasets (generateRevenueCostChartData mdata)).
          length (data d) = length (labels (generateRevenueCostChartData mdata))"
    by (simp add: generateRevenueCostChartData_def Let_def)
  have k: "\<forall>d \<in> set (datasets (generateRoiGrowthChartData fl mdata finalROI initialInvestment)).
          length (data d)
            = length (labels (generateRoiGrowthChartData fl mdata finalROI initialInvestment))"
    by (simp add: datasets_roiGrowth labels_roiGrowth)
  from r24 have r24': "0 mod sampleRateOf (length mdata) 24 = 0 \<and> 1 \<le> sampleRateOf (length mdata) 24"
    by simp
  from r12 have r12': "0 mod sampleRateOf (length mdata) 12 = 0 \<and> 1 \<le> sampleRateOf (length mdata) 12"
    by simp
  from r24' r12' a b c d e f g i j k show ?thesis by (simp only: simp_thms)
qed

theorem charts_keep_first_month_witness:
  "rampSeries 36 \<noteq> []
   \<and> hd (labels (generateRevenueCostChartData (rampSeries 36))) = ''Month 1''
   \<and> hd (labels (generateRoiGrowthChartData exact (rampSeries 36) (Fin 110) 100)) = ''Month 1''
   \<and> labels (generateRevenueCostChartData (rampSeries 36)) \<noteq> []
   \<and> labels (generateRoiGrowthChartData exact (rampSeries 36) (Fin 110) 100) \<noteq> []
   \<and> map (\<lambda>d. hd (data d)) (datasets (generateRevenueCostChartData (rampSeries 36)))
       = [Fin 10, Fin 9, Fin 1]
   \<and> map label (datasets (generateRoiGrowthChartData exact (rampSeries 36) (Fin 110) 100))
       = [''ROI Progress'', ''Target ROI'']
   \<and> map (\<lambda>d. hd (data d))
        (datasets (generateRoiGrowthChartData exact (rampSeries 36) (Fin 110) 100))
       = [Fin 96, Fin 110]"
proof -
  have h: "rampSeries 36 \<noteq> []" by (simp add: rampSeries_def upt_rec)
  have m: "monthLabel (month (rampSeries 36 ! 0)) = ''Month 1''"
    by (simp add: rampSeries_def rampPoint_def monthLabel_def numberString_def
        natString.simps digitChar_def)
  have p: "revenue (rampSeries 36 ! 0) = Fin 10" "cost (rampSeries 36 ! 0) = Fin 9"
    "profit (rampSeries 36 ! 0) = Fin 1"
    by (simp_all add: rampSeries_def rampPoint_def)
  have r: "js_min (monthRoi exact (rampSeries 36 ! 0) 100) (Fin 110) = Fin 96"
    by (simp add: rampSeries_def rampPoint_def monthRoi_def js_min_def)
  from charts_keep_first_month [OF h, where fl = exact and finalROI = "Fin 110"
      and initialInvestment = 100] m h p r show ?thesis by simp
qed


text \<open>The ROI chart: what \<open>Math.min\<close> guarantees, and the two datasets.\<close>

lemma js_ge_refl: "a \<noteq> NaN \<Longrightarrow> js_ge a a"
  by (cases a) simp_all

lemma js_ge_antisym: "js_ge a b \<Longrightarrow> js_ge b a \<Longrightarrow> a = b"
  by (cases a; cases b) simp_all

lemma js_min_le: "a \<noteq> NaN \<Longrightarrow> b \<noteq> NaN \<Longrightarrow> js_le (js_min a b) b"
  by (simp add: js_min_def js_le_def js_ge_refl)

lemma js_min_not_gt: "\<not> js_gt (js_min a b) b"
  by (auto simp: js_min_def js_gt_def dest: js_ge_antisym)

lemma monthRoi_not_NaN:
  assumes "cumulativeProfit item \<noteq> NaN" and "v \<noteq> 0"
  shows "monthRoi fl item v \<noteq> NaN"
  using assms unfolding monthRoi_def fl_mul_def fl_div_def fl_add_def
  by (cases "cumulativeProfit item") simp_all

lemma set_sampleEvery: "set (sampleEvery r xs) \<subseteq> set xs"
  by (auto simp: sampleEvery_indices)

lemma roiProgress_data:
  "data (datasets (generateRoiGrowthChartData fl mdata finalROI initialInvestment) ! 0)
     = map (\<lambda>item. js_min (monthRoi fl item initialInvestment) finalROI)
         (sampleEvery (sampleRateOf (length mdata) 12) mdata)"
  by (simp add: datasets_roiGrowth)

lemma roiProgress_indices:
  "data (datasets (generateRoiGrowthChartData fl mdata finalROI initialInvestment) ! 0)
     = map (\<lambda>i. js_min (monthRoi fl (mdata ! i) initialInvestment) finalROI)
         (filter (\<lambda>i. i mod sampleRateOf (length mdata) 12 = 0) [0..<length mdata])"
proof -
  have "sampleEvery (sampleRateOf (length mdata) 12) mdata
    = map (\<lambda>i. mdata ! i)
        (filter (\<lambda>i. i mod sampleRateOf (length mdata) 12 = 0) [0..<length mdata])"
    by (rule sampleEvery_mod) simp
  then show ?thesis by (simp only: roiProgress_data map_map o_def)
qed

lemma roiProgress_never_exceeds:
  "\<forall>v \<in> set (data (datasets (generateRoiGrowthChartData fl mdata finalROI initialInvestment) ! 0)).
     \<not> js_gt v finalROI"
  unfolding roiProgress_data by (simp add: js_min_not_gt)

lemma targetRoi_data:
  "data (datasets (generateRoiGrowthChartData fl mdata finalROI initialInvestment) ! 1)
     = replicate (length (labels (generateRoiGrowthChartData fl mdata finalROI initialInvestment)))
         finalROI"
  by (simp add: datasets_roiGrowth labels_roiGrowth map_replicate_const)

lemma roiProgress_at_most:
  assumes h: "initialInvestment \<noteq> 0 \<and> finalROI \<noteq> NaN
    \<and> (\<forall>p \<in> set mdata. cumulativeProfit p \<noteq> NaN)"
  shows "\<forall>v \<in> set (data (datasets (generateRoiGrowthChartData fl mdata finalROI initialInvestment) ! 0)).
    js_le v finalROI"
proof
  fix v
  assume "v \<in> set (data (datasets (generateRoiGrowthChartData fl mdata finalROI initialInvestment) ! 0))"
  then obtain item where item: "item \<in> set (sampleEvery (sampleRateOf (length mdata) 12) mdata)"
    "v = js_min (monthRoi fl item initialInvestment) finalROI"
    unfolding roiProgress_data by auto
  from item(1) have "item \<in> set mdata" by (rule subsetD [OF set_sampleEvery])
  with h have c: "cumulativeProfit item \<noteq> NaN" by simp
  from h have "initialInvestment \<noteq> 0" by simp
  with c have "monthRoi fl item initialInvestment \<noteq> NaN" by (rule monthRoi_not_NaN)
  moreover from h have "finalROI \<noteq> NaN" by simp
  ultimately have "js_le (js_min (monthRoi fl item initialInvestment) finalROI) finalROI"
    by (rule js_min_le)
  with item(2) show "js_le v finalROI" by simp
qed

text \<open>
  C7. The values of the dataset \<open>ROI Progress\<close> are the per-month ROI
  \<open>((cumulativeProfit + initialInvestment) / initialInvestment) * 100\<close> of the sampled
  months, clamped by \<open>Math.min\<close> with \<open>finalROI\<close>. None of them exceeds \<open>finalROI\<close>; for an
  initial investment other than 0, and numbers (a \<open>finalROI\<close> and cumulative profits that
  are not NaN), each of them is at most \<open>finalROI\<close>. The dataset \<open>Target ROI\<close> holds
  \<open>finalROI\<close> once for every sampled month.
\<close>

theorem roi_progress_clamped:
  "map label (datasets (generateRoiGrowthChartData fl mdata finalROI initialInvestment))
      = [''ROI Progress'', ''Target ROI'']
   \<and> data (datasets (generateRoiGrowthChartData fl mdata finalROI initialInvestment) ! 0)
      = map (\<lambda>i. js_min (monthRoi fl (mdata ! i) initialInvestment) finalROI)
          (filter (\<lambda>i. i mod sampleRateOf (length mdata) 12 = 0) [0..<length mdata])
   \<and> (\<forall>v \<in> set (data (datasets (generateRoiGrowthChartData fl mdata finalROI initialInvestment) ! 0)).
        \<not> js_gt v finalROI)
   \<and> (initialInvestment \<noteq> 0 \<and> finalROI \<noteq> NaN
        \<and> (\<forall>p \<in> set mdata. cumulativeProfit p \<noteq> NaN) \<longrightarrow>
       (\<forall>v \<in> set (data (datasets (generateRoiGrowthChartData fl mdata finalROI initialInvestment) ! 0)).
          js_le v finalROI))
   \<and> data (datasets (generateRoiGrowthChartData fl mdata finalROI initialInvestment) ! 1)
      = replicate (length (labels (generateRoiGrowthChartData fl mdata finalROI initialInvestment)))
          finalROI"
proof (intro conjI impI)
  show "map label (datasets (generateRoiGrowthChartData fl mdata finalROI initialInvestment))
      = [''ROI Progress'', ''Target ROI'']"
    by (simp add: datasets_roiGrowth)
  show "data (datasets (generateRoiGrowthChartData fl mdata finalROI initialInvestment) ! 0)
      = map (\<lambda>i. js_min (monthRoi fl (mdata ! i) initialInvestment) finalROI)
          (filter (\<lambda>i. i mod sampleRateOf (length mdata) 12 = 0) [0..<length mdata])"
    by (rule roiProgress_indices)
  show "\<forall>v \<in> set (data (datasets (generateRoiGrowthChartData fl mdata finalROI initialInvestment) ! 0)).
        \<not> js_gt v finalROI"
    by (rule roiProgress_never_exceeds)
  show "\<forall>v \<in> set (data (datasets (generateRoiGrowthChartData fl mdata finalROI initialInvestment) ! 0)).
          js_le v finalROI"
    if "initialInvestment \<noteq> 0 \<and> finalROI \<noteq> NaN
        \<and> (\<forall>p \<in> set mdata. cumulativeProfit p \<noteq> NaN)"
    using that by (rule roiProgress_at_most)
  show "data (datasets (generateRoiGrowthChartData fl mdata finalROI initialInvestment) ! 1)
      = replicate (length (labels (generateRoiGrowthChartData fl mdata finalROI initialInvestment)))
          finalROI"
    by (rule targetRoi_data)
qed

lemma ramp_kept_12:
  "sampleEvery (sampleRateOf (length (rampSeries 36)) 12) (rampSeries 36)
     = map rampPoint [1, 4, 7, 10, 13, 16, 19, 22, 25, 28, 31, 34]"
proof -
  have r: "sampleRateOf 36 12 = 3" by (simp add: sampleRateOf_def)
  have k: "filter (keepIndex 3) [0..<36] = [0, 3, 6, 9, 12, 15, 18, 21, 24, 27, 30, 33]"
    by (simp add: keepIndex_def upt_rec)
  have "sampleEvery 3 (rampSeries 36)
      = map (\<lambda>i. rampSeries 36 ! i) [0, 3, 6, 9, 12, 15, 18, 21, 24, 27, 30, 33]"
    using k by (simp add: sampleEvery_indices rampSeries_def)
  also have "\<dots> = map rampPoint [1, 4, 7, 10, 13, 16, 19, 22, 25, 28, 31, 34]"
    by (simp add: rampSeries_def)
  finally show ?thesis by (simp add: rampSeries_def r)
qed

theorem roi_progress_clamped_witness:
  "(100::int) \<noteq> 0 \<and> Fin 110 \<noteq> NaN
   \<and> data (datasets (generateRoiGrowthChartData exact (rampSeries 36) (Fin 110) 100) ! 0)
       = [Fin 96, Fin 99, Fin 102, Fin 105, Fin 108, Fin 110, Fin 110, Fin 110, Fin 110,
          Fin 110, Fin 110, Fin 110]
   \<and> js_le (Fin 96) (Fin 110) \<and> js_le (Fin 110) (Fin 110)
   \<and> data (datasets (generateRoiGrowthChartData exact (rampSeries 36) (Fin 110) 100) ! 1)
       = replicate (length (labels (generateRoiGrowthChartData exact (rampSeries 36) (Fin 110) 100)))
           (Fin 110)"
proof -
  have h: "(100::int) \<noteq> 0 \<and> Fin 110 \<noteq> NaN
      \<and> (\<forall>p \<in> set (rampSeries 36). cumulativeProfit p \<noteq> NaN)"
    by (auto simp: rampSeries_def rampPoint_def)
  have d: "data (datasets (generateRoiGrowthChartData exact (rampSeries 36) (Fin 110) 100) ! 0)
       = [Fin 96, Fin 99, Fin 102, Fin 105, Fin 108, Fin 110, Fin 110, Fin 110, Fin 110,
          Fin 110, Fin 110, Fin 110]"
    by (simp add: datasets_roiGrowth ramp_kept_12 rampPoint_def monthRoi_def js_min_def)
  from roi_progress_clamped [where fl = exact and mdata = "rampSeries 36"
      and finalROI = "Fin 110" and initialInvestment = 100] h
  have "\<forall>v \<in> set (data (datasets (generateRoiGrowthChartData exact (rampSeries 36) (Fin 110) 100) ! 0)).
      js_le v (Fin 110)"
    and "data (datasets (generateRoiGrowthChartData exact (rampSeries 36) (Fin 110) 100) ! 1)
       = replicate (length (labels (generateRoiGrowthChartData exact (rampSeries 36) (Fin 110) 100)))
           (Fin 110)"
    by blast+
  with d show ?thesis by simp
qed

section \<open>Properties of the performance metrics\<close>

lemma profitMargin_formula:
  "profitMargin (efficiency (generatePerformanceMetrics fl r))
     = js_or (fl_mul fl (profitPerRevenue fl (net_profit r)
                          (expected_monthly_revenue (financialDetails r))
                          (timeframe (financialDetails r)))
                        (Fin 100))
             (Fin 0)"
  by (simp add: generatePerformanceMetrics_def Let_def)

lemma profitPerRevenue_zero:
  assumes "monthly * months = 0" and "fl 0 = 0"
  shows "profitPerRevenue fl np monthly months =
    (if np = 0 then NaN
     else if (0 < np) = (monthly < 0 \<or> months < 0) then NegInf else PosInf)"
proof (cases "(monthly = 0 \<and> months < 0) \<or> (monthly < 0 \<and> months = 0)")
  case True
  then show ?thesis by (auto simp: profitPerRevenue_def fl_div_def)
next
  case False
  with assms have "\<not> (monthly < 0 \<or> months < 0)" by auto
  moreover from assms have "fl_mul fl (Fin (of_int monthly)) (Fin (of_int months)) = Fin 0"
    by (auto simp: fl_mul_def)
  ultimately show ?thesis using False by (simp add: profitPerRevenue_def fl_div_def)
qed

text \<open>
  The profit margin at a zero denominator, in every arithmetic that keeps 0: 0 only when
  the net profit is 0, an infinity otherwise.
\<close>

lemma profitMargin_zero_denominator:
  assumes "expected_monthly_revenue (financialDetails r) * timeframe (financialDetails r) = 0"
    and "fl 0 = 0"
  shows "profitMargin (efficiency (generatePerformanceMetrics fl r)) =
    (if net_profit r = 0 then Fin 0
     else if (0 < net_profit r) =
          (expected_monthly_revenue (financialDetails r) < 0 \<or> timeframe (financialDetails r) < 0)
     then NegInf else PosInf)"
  by (simp add: profitMargin_formula profitPerRevenue_zero [where fl = fl, OF assms] js_or_def fl_mul_def)

text \<open>
  C2 (the source at a zero denominator). With an expected monthly revenue of 0 over
  twelve months and a net profit of -144000 the denominator is 0 and the quotient is
  \<open>-Infinity\<close>, which is truthy: the fallback \<open>|| 0\<close> is not taken and the profit margin is
  \<open>-Infinity\<close>, not 0, in double arithmetic as in exact arithmetic.
\<close>

theorem profitMargin_zero_revenue:
  "expected_monthly_revenue (financialDetails zeroRevenueResult)
     * timeframe (financialDetails zeroRevenueResult) = 0
   \<and> profitMargin (efficiency (generatePerformanceMetrics double zeroRevenueResult)) = NegInf
   \<and> profitMargin (efficiency (generatePerformanceMetrics exact zeroRevenueResult)) = NegInf"
  by (simp add: zeroRevenueResult_def generatePerformanceMetrics_def Let_def
      profitPerRevenue_def js_or_def fl_mul_def fl_div_def double_integers exact_def)

section \<open>The revenue state from month to month\<close>

lemma row_bounds:
  assumes "getGrowthFactors bm = Row r"
  shows "0 \<le> monthlyGrowth r \<and> 6 / 10 \<le> maxCapacity r"
proof (cases "map_of factors (propertyKey bm)")
  case None
  with assms have "r = defaultFactors"
    by (simp add: getGrowthFactors_def Let_def split: if_splits)
  then show ?thesis by (simp add: defaultFactors_def)
next
  case (Some row)
  with assms have "r = row" by (simp add: getGrowthFactors_def Let_def)
  with Some have "(propertyKey bm, r) \<in> set factors" by (simp add: map_of_SomeD)
  then show ?thesis by (auto simp: factors_def)
qed

lemma variance_bounds:
  "0 \<le> x \<Longrightarrow> x \<le> 1 \<Longrightarrow> 95 / 100 \<le> variance exact x \<and> variance exact x \<le> 105 / 100"
  by (simp add: variance_def exact_def)

lemma grownRevenue_row:
  assumes cur: "currentRevenue s = Fin c" and c: "0 \<le> c"
    "c \<le> of_int (expected_monthly_revenue inp) * maxCapacity r"
    and g: "0 \<le> monthlyGrowth r" and rnd: "\<forall>n. 0 \<le> rnd n \<and> rnd n \<le> 1"
  shows "\<exists>c'. grownRevenue exact inp (Row r) rnd s = Fin c' \<and> c \<le> c'
    \<and> c' \<le> of_int (expected_monthly_revenue inp) * maxCapacity r"
proof (cases "loop_month s > 1")
  case False
  with cur c show ?thesis by (simp add: grownRevenue_def)
next
  case True
  let ?rate = "monthlyGrowth r * variance exact (rnd (draws s))"
  let ?cap = "real_of_int (expected_monthly_revenue inp) * maxCapacity r"
  from rnd have "0 \<le> rnd (draws s)" "rnd (draws s) \<le> 1" by simp_all
  from variance_bounds [OF this] have "0 \<le> variance exact (rnd (draws s))" by simp
  with g have rate: "0 \<le> ?rate" by simp
  with c(1) have "0 \<le> c * ?rate" by simp
  then have grow: "c \<le> c * (1 + ?rate)" by (simp add: algebra_simps)
  have ex: "exact (monthlyGrowth r) = monthlyGrowth r" "exact (maxCapacity r) = maxCapacity r"
    by (simp_all add: exact_def)
  from True cur have "grownRevenue exact inp (Row r) rnd s
      = (if c * (1 + ?rate) \<le> ?cap then Fin (c * (1 + ?rate)) else Fin ?cap)"
    by (simp add: grownRevenue_def Let_def js_min_def ex)
  with grow c(2) show ?thesis by auto
qed

lemma currentRevenue_row:
  assumes e: "0 < expected_monthly_revenue inp"
    and r: "0 \<le> monthlyGrowth r" "6 / 10 \<le> maxCapacity r"
    and rnd: "\<forall>n. 0 \<le> rnd n \<and> rnd n \<le> 1"
  shows "\<exists>c c'. currentRevenue (stateAfter exact inp (Row r) rnd k) = Fin c
      \<and> currentRevenue (stateAfter exact inp (Row r) rnd (Suc k)) = Fin c'
      \<and> 0 \<le> c \<and> c \<le> c' \<and> c' \<le> of_int (expected_monthly_revenue inp) * maxCapacity r"
proof (induction k)
  case 0
  let ?E = "real_of_int (expected_monthly_revenue inp)"
  from e have E: "0 < ?E" by simp
  with r(2) have le: "?E * (6 / 10) \<le> ?E * maxCapacity r" by (intro mult_left_mono) simp_all
  from E have nonneg: "0 \<le> ?E * (6 / 10)" by simp
  have s0: "currentRevenue (stateAfter exact inp (Row r) rnd 0) = Fin (?E * (6 / 10))"
    by (simp add: stateAfter_def initialState_def exact_def)
  have s1: "currentRevenue (stateAfter exact inp (Row r) rnd (Suc 0)) = Fin (?E * (6 / 10))"
    by (simp add: stateAfter_def monthBody_def initialState_def grownRevenue_def exact_def)
  from s0 s1 nonneg le show ?case by blast
next
  case (Suc k)
  then obtain c c' where c: "currentRevenue (stateAfter exact inp (Row r) rnd (Suc k)) = Fin c'"
    "0 \<le> c" "c \<le> c'" "c' \<le> of_int (expected_monthly_revenue inp) * maxCapacity r"
    by blast
  from c(2,3) have c0: "0 \<le> c'" by simp
  from grownRevenue_row [OF c(1) c0 c(4) r(1) rnd]
  obtain c'' where
    "grownRevenue exact inp (Row r) rnd (stateAfter exact inp (Row r) rnd (Suc k)) = Fin c''"
    "c' \<le> c''" "c'' \<le> of_int (expected_monthly_revenue inp) * maxCapacity r" by blast
  moreover have "currentRevenue (stateAfter exact inp (Row r) rnd (Suc (Suc k)))
      = grownRevenue exact inp (Row r) rnd (stateAfter exact inp (Row r) rnd (Suc k))"
    by (simp add: stateAfter_Suc monthBody_def)
  ultimately show ?case using c(1) c0 by simp
qed

text \<open>
  When the business model resolves to a row of growth factors (one of the five of the
  table, or the default row), the expected monthly revenue is positive and the draws lie
  in \<open>[0, 1]\<close>, \<open>currentRevenue\<close> never decreases from one month to the next in exact
  arithmetic.
\<close>

lemma currentRevenue_nondecreasing_rows:
  assumes "getGrowthFactors (business_model inp) = Row r"
    and "0 < expected_monthly_revenue inp"
    and "\<forall>n. 0 \<le> rnd n \<and> rnd n \<le> 1"
  shows "js_ge (currentRevenueAfter exact inp rnd (Suc k)) (currentRevenueAfter exact inp rnd k)"
proof -
  from row_bounds [OF assms(1)] have r: "0 \<le> monthlyGrowth r" "6 / 10 \<le> maxCapacity r"
    by simp_all
  from currentRevenue_row [OF assms(2) r assms(3), where k = k] show ?thesis
    by (auto simp: assms(1) currentRevenueAfter_def)
qed

text \<open>
  An inherited member has no \<open>monthlyGrowth\<close>: from month 2 on the grown revenue is NaN,
  whatever the arithmetic and the state.
\<close>

lemma grownRevenue_inherited:
  "1 < loop_month s \<Longrightarrow> grownRevenue fl inp (Inherited name) rnd s = NaN"
  by (simp add: grownRevenue_def Let_def fl_mul_def fl_add_def js_min_def)

lemma constructor_lookup:
  "getGrowthFactors (business_model constructorVenture) = Inherited ''constructor''"
  by (simp add: constructorVenture_def getGrowthFactors_def propertyKey_def factors_def
      objectPrototypeNames_def)

lemma constructor_first_month:
  "currentRevenue (stateAfter double constructorVenture (Inherited ''constructor'') noVariance
     (Suc 0)) = Fin 12000"
proof -
  have e: "expected_monthly_revenue constructorVenture = 20000"
    by (simp add: constructorVenture_def)
  have "fl_mul double (Fin 20000) (Fin (5404319552844595 / 9007199254740992)) = Fin 12000"
    by (simp add: fl_mul_def double_eval)
  then show ?thesis
    by (simp add: stateAfter_def monthBody_def initialState_def grownRevenue_def e
        double_literals)
qed

lemma constructor_second_month:
  "currentRevenue (stateAfter fl constructorVenture (Inherited ''constructor'') noVariance
     (Suc (Suc 0))) = NaN"
proof -
  have "loop_month (stateAfter fl constructorVenture (Inherited ''constructor'') noVariance
      (Suc 0)) = 2"
    by (simp add: stateAfter_def monthBody_def initialState_def)
  then show ?thesis
    by (simp add: stateAfter_Suc [of _ _ _ _ "Suc 0"] monthBody_def grownRevenue_inherited)
qed

text \<open>
  C9 (the source under the business model \<open>constructor\<close>). The lookup
  \<open>factors["constructor"]\<close> finds the member inherited from \<open>Object.prototype\<close>, which is
  truthy, so the default row is not taken; its \<open>monthlyGrowth\<close> and \<open>maxCapacity\<close> are
  \<open>undefined\<close>. In double arithmetic \<open>currentRevenue\<close> is 12000 after month 1 and NaN
  after month 2, and \<open>NaN >= 12000\<close> is false: the revenue state is not non-decreasing
  for this input.
\<close>

theorem currentRevenue_constructor:
  "getGrowthFactors (business_model constructorVenture) = Inherited ''constructor''
   \<and> currentRevenueAfter double constructorVenture noVariance 1 = Fin 12000
   \<and> currentRevenueAfter double constructorVenture noVariance 2 = NaN
   \<and> \<not> js_ge (currentRevenueAfter double constructorVenture noVariance 2)
               (currentRevenueAfter double constructorVenture noVariance 1)"
proof -
  have one: "currentRevenueAfter double constructorVenture noVariance 1 = Fin 12000"
    using constructor_first_month by (simp add: currentRevenueAfter_def constructor_lookup)
  have two: "currentRevenueAfter double constructorVenture noVariance 2 = NaN"
    using constructor_second_month [of double]
    by (simp add: currentRevenueAfter_def constructor_lookup numeral_2_eq_2)
  from constructor_lookup one two show ?thesis by simp
qed

end
